theory Spec2Isabelle
  imports Complex_Main
begin

section \<open>Decimal values of the arbitrary-precision library\<close>

text \<open>
  The three handlers compute with \<^verbatim>\<open>Decimal\<close> objects of the decimal.js library at its
  default configuration (the code never calls \<^verbatim>\<open>Decimal.set\<close>): 20 significant digits,
  rounding mode half-up (ties away from zero), exponent limits \<open>\<plusminus>9e15\<close>, exponential
  notation in \<^verbatim>\<open>toString\<close> for exponents \<open>\<le> -7\<close> or \<open>\<ge> 21\<close>.

  A value is not-a-number, a signed infinity, or a signed finite decimal
  \<open>(-1)^neg * coefficient * 10^exponent\<close>; zero carries a sign, as in the library.
  The flag of \<open>Inf\<close> and \<open>Fin\<close> is \<open>True\<close> for a negative value.
\<close>

datatype decimal = NaN | Inf bool | Fin bool nat int

definition precision :: nat where
  "precision = 20"

definition maxE :: int where
  "maxE = 9000000000000000"

definition minE :: int where
  "minE = - 9000000000000000"

definition toExpNeg :: int where
  "toExpNeg = - 7"

definition toExpPos :: int where
  "toExpPos = 21"

fun ndigits :: "nat \<Rightarrow> nat" where
  "ndigits n = (if n < 10 then 1 else 1 + ndigits (n div 10))"

declare ndigits.simps [simp del]

function strip_zeros :: "nat \<Rightarrow> int \<Rightarrow> nat \<times> int" where
  "strip_zeros c e = (if c \<noteq> 0 \<and> c mod 10 = 0 then strip_zeros (c div 10) (e + 1) else (c, e))"
  by pat_completeness auto
termination
  by (relation "measure fst") auto

declare strip_zeros.simps [simp del]

text \<open>
  The library keeps a finite value without trailing zeros and checks its exponent (of the
  leading digit) against the limits: above \<open>maxE\<close> the value becomes an infinity, below
  \<open>minE\<close> a zero.
\<close>

definition mkFin :: "bool \<Rightarrow> nat \<Rightarrow> int \<Rightarrow> decimal" where
  "mkFin s c e =
     (if c = 0 then Fin s 0 0
      else (let (c', e') = strip_zeros c e;
                E = e' + int (ndigits c') - 1
            in if E > maxE then Inf s
               else if E < minE then Fin s 0 0
               else Fin s c' e'))"

text \<open>The magnitude and the value of a finite decimal as rational numbers.\<close>

fun mag :: "decimal \<Rightarrow> rat" where
  "mag (Fin s c e) = of_nat c * 10 powi e"
| "mag _ = 0"

fun val :: "decimal \<Rightarrow> rat" where
  "val (Fin s c e) = (if s then - (of_nat c * 10 powi e) else of_nat c * 10 powi e)"
| "val _ = 0"

declare mag.simps [simp del] val.simps [simp del]

fun isNeg :: "decimal \<Rightarrow> bool" where
  "isNeg (Fin s c e) = s"
| "isNeg (Inf s) = s"
| "isNeg NaN = False"

fun isZero :: "decimal \<Rightarrow> bool" where
  "isZero (Fin s c e) = (c = 0)"
| "isZero _ = False"

fun isNaN :: "decimal \<Rightarrow> bool" where
  "isNaN NaN = True"
| "isNaN _ = False"

fun isFinite :: "decimal \<Rightarrow> bool" where
  "isFinite (Fin s c e) = True"
| "isFinite _ = False"

text \<open>
  \<open>exponent_frac n d\<close> is the decimal exponent of the leading digit of the positive
  fraction \<open>n / d\<close>: the \<open>E\<close> with \<open>10^E \<le> n / d < 10^(E+1)\<close>. The digit counts
  place it within one.
\<close>

definition exponent_frac :: "nat \<Rightarrow> nat \<Rightarrow> int" where
  "exponent_frac n d =
     (let e0 = int (ndigits n) - int (ndigits d)
      in if d * 10 ^ nat e0 \<le> n * 10 ^ nat (- e0) then e0 else e0 - 1)"

text \<open>
  The library's rounding of an exact result (\<^verbatim>\<open>finalise\<close>): the magnitude
  \<open>n / d * 10^e\<close> with sign \<open>s\<close>, rounded half-up to \<open>sd\<close> significant digits, then checked
  against the exponent limits. \<open>j\<close> scales the fraction to \<open>sd\<close> digits before the point;
  \<open>c\<close> is \<open>\<lfloor>n / d * 10^j + 1/2\<rfloor>\<close>.
\<close>

definition round_frac :: "nat \<Rightarrow> bool \<Rightarrow> nat \<Rightarrow> nat \<Rightarrow> int \<Rightarrow> decimal" where
  "round_frac sd s n d e =
     (if n = 0 then Fin s 0 0
      else (let j = int sd - 1 - exponent_frac n d;
                c = (2 * n * 10 ^ nat j + d * 10 ^ nat (- j)) div (2 * d * 10 ^ nat (- j))
            in mkFin s c (e - j)))"

definition finalise :: "decimal \<Rightarrow> decimal" where
  "finalise x = (case x of Fin s c e \<Rightarrow> round_frac precision s c 1 e | _ \<Rightarrow> x)"

subsection \<open>Arithmetic\<close>

text \<open>
  \<^verbatim>\<open>x.div(y)\<close>: not-a-number for a not-a-number operand, for \<open>0/0\<close> and for
  \<open>\<infinity>/\<infinity>\<close>; a signed zero when \<open>x\<close> is zero or \<open>y\<close> infinite; a signed infinity when
  \<open>x\<close> is infinite or \<open>y\<close> is zero; otherwise the quotient rounded to the precision.
  No division raises.
\<close>

fun Decimal_div :: "decimal \<Rightarrow> decimal \<Rightarrow> decimal" where
  "Decimal_div NaN y = NaN"
| "Decimal_div x NaN = NaN"
| "Decimal_div (Inf sx) (Inf sy) = NaN"
| "Decimal_div (Inf sx) (Fin sy cy ey) = Inf (sx \<noteq> sy)"
| "Decimal_div (Fin sx cx ex) (Inf sy) = Fin (sx \<noteq> sy) 0 0"
| "Decimal_div (Fin sx cx ex) (Fin sy cy ey) =
     (if cx = 0 \<and> cy = 0 then NaN
      else if cx = 0 then Fin (sx \<noteq> sy) 0 0
      else if cy = 0 then Inf (sx \<noteq> sy)
      else round_frac precision (sx \<noteq> sy) cx cy (ex - ey))"

text \<open>
  \<^verbatim>\<open>x.times(y)\<close>: not-a-number for a not-a-number operand and for \<open>0 * \<infinity>\<close>; a signed
  infinity when an operand is infinite; a signed zero when one is zero; otherwise the
  product rounded to the precision.
\<close>

fun Decimal_mul :: "decimal \<Rightarrow> decimal \<Rightarrow> decimal" where
  "Decimal_mul NaN y = NaN"
| "Decimal_mul x NaN = NaN"
| "Decimal_mul (Inf sx) (Inf sy) = Inf (sx \<noteq> sy)"
| "Decimal_mul (Inf sx) (Fin sy cy ey) = (if cy = 0 then NaN else Inf (sx \<noteq> sy))"
| "Decimal_mul (Fin sx cx ex) (Inf sy) = (if cx = 0 then NaN else Inf (sx \<noteq> sy))"
| "Decimal_mul (Fin sx cx ex) (Fin sy cy ey) =
     (if cx = 0 \<or> cy = 0 then Fin (sx \<noteq> sy) 0 0
      else round_frac precision (sx \<noteq> sy) (cx * cy) 1 (ex + ey))"

text \<open>
  \<^verbatim>\<open>x.minus(y)\<close>: not-a-number for a not-a-number operand and for the difference of two
  infinities of one sign; an infinity when one operand is infinite; otherwise the exact
  difference rounded to the precision. \<open>signed_coeff\<close> writes an operand as an integer
  multiple of \<open>10^e\<close> for the smaller exponent \<open>e\<close>. A zero difference is \<open>+0\<close>, except
  \<open>(-0) - (+0)\<close>, which is \<open>-0\<close>.
\<close>

definition signed_coeff :: "bool \<Rightarrow> nat \<Rightarrow> int \<Rightarrow> int \<Rightarrow> int" where
  "signed_coeff s c ex e = (if s then - (int c * 10 ^ nat (ex - e)) else int c * 10 ^ nat (ex - e))"

fun Decimal_sub :: "decimal \<Rightarrow> decimal \<Rightarrow> decimal" where
  "Decimal_sub NaN y = NaN"
| "Decimal_sub x NaN = NaN"
| "Decimal_sub (Inf sx) (Inf sy) = (if sx \<noteq> sy then Inf sx else NaN)"
| "Decimal_sub (Inf sx) (Fin sy cy ey) = Inf sx"
| "Decimal_sub (Fin sx cx ex) (Inf sy) = Inf (\<not> sy)"
| "Decimal_sub (Fin sx cx ex) (Fin sy cy ey) =
     (let e = min ex ey;
          v = signed_coeff sx cx ex e - signed_coeff sy cy ey e
      in if v = 0 then Fin (sx \<and> \<not> sy \<and> cx = 0 \<and> cy = 0) 0 0
         else round_frac precision (v < 0) (nat \<bar>v\<bar>) 1 e)"

subsection \<open>Exponentiation\<close>

text \<open>
  The exponent of \<^verbatim>\<open>pow\<close> is a native number: \<^verbatim>\<open>DAYS_IN_YEAR / daysElapsedSinceIndexed\<close> or
  \<^verbatim>\<open>DAYS_IN_YEAR / AVG_DAYS\<close>. \<^verbatim>\<open>Math.ceil\<close> returns an integer or the negative zero, and
  the native division by a zero does not raise: it returns an infinity with the sign of the
  zero. \<open>Quot a b\<close> stands for the double nearest to \<open>a / b\<close>, for \<open>b \<noteq> 0\<close>.
\<close>

datatype days = Days int | NegZero

datatype exponent = PosInfinity | NegInfinity | Quot int int

definition DAYS_IN_YEAR :: int where
  "DAYS_IN_YEAR = 365"

definition AVG_DAYS :: int where
  "AVG_DAYS = 7"

fun year_fraction :: "days \<Rightarrow> exponent" where
  "year_fraction NegZero = NegInfinity"
| "year_fraction (Days n) = (if n = 0 then PosInfinity else Quot DAYS_IN_YEAR n)"

text \<open>
  \<open>near_one r\<close>: the magnitude \<open>r\<close> converts to the double \<open>1\<close> (round to nearest, ties to
  even; the neighbours of \<open>1\<close> are \<open>1 - 2^-53\<close> and \<open>1 + 2^-52\<close>).
\<close>

definition near_one :: "rat \<Rightarrow> bool" where
  "near_one r \<longleftrightarrow> 1 - 1 / 2 ^ 54 \<le> r \<and> r \<le> 1 + 1 / 2 ^ 53"

definition odd_integer :: "int \<Rightarrow> int \<Rightarrow> bool" where
  "odd_integer a b \<longleftrightarrow> b dvd a \<and> odd (a div b)"

definition positive_quot :: "int \<Rightarrow> int \<Rightarrow> bool" where
  "positive_quot a b \<longleftrightarrow> (0 < a \<and> 0 < b) \<or> (a < 0 \<and> b < 0)"

text \<open>
  When the base or the exponent is a not-a-number, an infinity or a zero, the library
  returns \<^verbatim>\<open>Math.pow(+x, +y)\<close> of the native numbers. The exponents that reach it here are
  never zero or not-a-number, and a finite exponent meets a finite base here only when
  that base is a zero. The cases are those of the language standard's
  \<open>Number::exponentiate\<close>; whether the exponent is an odd integer and whether it is
  positive are read off \<open>a / b\<close>, which decides both for the double as well while
  \<open>\<bar>b\<bar> < 2^26\<close> (the day counts of five hundred thousand years).
\<close>

fun Math_pow :: "decimal \<Rightarrow> exponent \<Rightarrow> decimal" where
  "Math_pow NaN y = NaN"
| "Math_pow (Inf s) PosInfinity = Inf False"
| "Math_pow (Inf s) NegInfinity = Fin False 0 0"
| "Math_pow (Inf False) (Quot a b) =
     (if positive_quot a b then Inf False else Fin False 0 0)"
| "Math_pow (Inf True) (Quot a b) =
     (if positive_quot a b then Inf (odd_integer a b) else Fin (odd_integer a b) 0 0)"
| "Math_pow (Fin s c e) PosInfinity =
     (if c = 0 then Fin False 0 0
      else if near_one (mag (Fin s c e)) then NaN
      else if 1 < mag (Fin s c e) then Inf False
      else Fin False 0 0)"
| "Math_pow (Fin s c e) NegInfinity =
     (if c = 0 then Inf False
      else if near_one (mag (Fin s c e)) then NaN
      else if 1 < mag (Fin s c e) then Fin False 0 0
      else Inf False)"
| "Math_pow (Fin s c e) (Quot a b) =
     (if positive_quot a b then Fin (s \<and> odd_integer a b) 0 0
      else Inf (s \<and> odd_integer a b))"

text \<open>
  Inside the library's own routines the flag \<^verbatim>\<open>external\<close> is off and \<^verbatim>\<open>x.times(y)\<close> returns
  the exact product: not rounded to the precision, not checked against the exponent
  limits.
\<close>

fun times_exact :: "decimal \<Rightarrow> decimal \<Rightarrow> decimal" where
  "times_exact (Fin sx cx ex) (Fin sy cy ey) =
     (if cx = 0 \<or> cy = 0 then Fin (sx \<noteq> sy) 0 0
      else (let (c, e) = strip_zeros (cx * cy) (ex + ey) in Fin (sx \<noteq> sy) c e))"
| "times_exact x y = Decimal_mul x y"

text \<open>
  The library keeps the digits of a value in words of \<open>LOG_BASE\<close> decimal digits; the
  lowest digit of a word stands at a position that is a multiple of \<open>LOG_BASE\<close>, and
  the last word is not zero. \<^verbatim>\<open>truncate(arr, len)\<close> cuts the array to its first \<open>len\<close>
  words and tells whether it cut: \<open>q\<close> is the position of the lowest digit kept.
\<close>

definition LOG_BASE :: nat where
  "LOG_BASE = 7"

definition truncate_words :: "nat \<Rightarrow> decimal \<Rightarrow> decimal \<times> bool" where
  "truncate_words len x =
     (case x of
        Fin s c e \<Rightarrow>
          (let E = e + int (ndigits c) - 1;
               q = int LOG_BASE * (E div int LOG_BASE - (int len - 1))
           in if c = 0 \<or> q \<le> e then (x, False)
              else (Fin s (c div 10 ^ nat (q - e)) q, True))
      | _ \<Rightarrow> (x, False))"

text \<open>The last word of the array, and the array with its last word incremented.\<close>

definition last_word :: "decimal \<Rightarrow> nat" where
  "last_word x =
     (case x of
        Fin s c e \<Rightarrow> (c * 10 ^ nat (e mod int LOG_BASE)) mod 10 ^ LOG_BASE
      | _ \<Rightarrow> 0)"

definition increment_last_word :: "decimal \<Rightarrow> decimal" where
  "increment_last_word x =
     (case x of
        Fin s c e \<Rightarrow>
          Fin s (c * 10 ^ nat (e mod int LOG_BASE) + 1) (e - e mod int LOG_BASE)
      | _ \<Rightarrow> x)"

text \<open>
  \<^verbatim>\<open>intPow(Ctor, x, n, pr)\<close>: exponentiation by squaring from the lowest bit of \<open>n\<close>, every
  product cut to \<open>k = \<lceil>pr / LOG_BASE + 4\<rceil>\<close> words. When the result was cut and its last
  word is zero, that word is incremented.
\<close>

function intPow_loop :: "nat \<Rightarrow> decimal \<Rightarrow> decimal \<Rightarrow> bool \<Rightarrow> nat \<Rightarrow> decimal" where
  "intPow_loop k r x isTruncated n =
     (let rt = (if odd n then truncate_words k (times_exact r x) else (r, False));
          r' = fst rt;
          isTruncated' = (isTruncated \<or> snd rt)
      in if n div 2 = 0
         then (if isTruncated' \<and> last_word r' = 0 then increment_last_word r' else r')
         else intPow_loop k r' (fst (truncate_words k (times_exact x x))) isTruncated'
                (n div 2))"
  by pat_completeness auto
termination
  by (relation "measure (\<lambda>(k, r, x, t, n). n)") auto

declare intPow_loop.simps [simp del]

definition intPow :: "decimal \<Rightarrow> nat \<Rightarrow> nat \<Rightarrow> decimal" where
  "intPow x n pr = intPow_loop ((pr + LOG_BASE - 1) div LOG_BASE + 4) (Fin False 1 0) x False n"

definition MAX_SAFE_INTEGER :: int where
  "MAX_SAFE_INTEGER = 9007199254740991"

text \<open>
  \<^verbatim>\<open>x.pow(y)\<close>. After the special values the library returns \<open>x\<close> when \<open>x = 1\<close>, and \<open>x\<close>
  rounded to the precision when \<open>y = 1\<close>. For an integer \<open>y\<close> up to \<open>MAX_SAFE_INTEGER\<close> in
  magnitude it returns \<^verbatim>\<open>intPow\<close> of \<open>\<bar>y\<bar>\<close> rounded to the precision, or \<open>1\<close> divided by
  it when \<open>y\<close> is negative. The double \<open>a / b\<close> is an integer exactly when \<open>b\<close> divides
  \<open>a\<close> (for \<open>\<bar>b\<bar> < 2^26\<close>). A negative \<open>x\<close> with a fractional \<open>y\<close> gives not-a-number.
  Every other case runs the library's estimate of the result's exponent and its series
  for the exponential of \<open>y * ln x\<close>, which are not part of this repository: \<open>powf x a b\<close>
  is their result for a finite non-zero \<open>x \<noteq> 1\<close> and the exponent \<open>Quot a b\<close>, when that
  exponent is fractional or exceeds \<open>MAX_SAFE_INTEGER\<close>.
\<close>

fun Decimal_pow :: "(decimal \<Rightarrow> int \<Rightarrow> int \<Rightarrow> decimal) \<Rightarrow> decimal \<Rightarrow> exponent \<Rightarrow> decimal" where
  "Decimal_pow powf (Fin s c e) (Quot a b) =
     (if c = 0 then Math_pow (Fin s c e) (Quot a b)
      else if \<not> s \<and> mag (Fin s c e) = 1 then Fin s c e
      else if a = b then finalise (Fin s c e)
      else if b dvd a \<and> \<bar>a div b\<bar> \<le> MAX_SAFE_INTEGER then
        (let r = intPow (Fin s c e) (nat \<bar>a div b\<bar>) precision
         in if a div b < 0 then Decimal_div (Fin False 1 0) r else finalise r)
      else if s \<and> \<not> b dvd a then NaN
      else powf (Fin s c e) a b)"
| "Decimal_pow powf x y = Math_pow x y"

subsection \<open>Conversion to strings\<close>

definition digit_char :: "nat \<Rightarrow> char" where
  "digit_char n = ''0123456789'' ! (n mod 10)"

fun nat_str :: "nat \<Rightarrow> string" where
  "nat_str n = (if n < 10 then [digit_char n] else nat_str (n div 10) @ [digit_char n])"

declare nat_str.simps [simp del]

definition nonFiniteToString :: "decimal \<Rightarrow> string" where
  "nonFiniteToString x = (if isNaN x then ''NaN'' else ''Infinity'')"

definition with_sign :: "decimal \<Rightarrow> string \<Rightarrow> string" where
  "with_sign x str = (if isNeg x \<and> \<not> isZero x then CHR ''-'' # str else str)"

text \<open>
  \<^verbatim>\<open>x.toFixed(6)\<close>: the value rounded half-up to six decimal places, in normal notation
  with exactly six digits after the point; the sign is that of the value before rounding.
  \<open>round_dp6 c e\<close> is \<open>\<lfloor>c * 10^e * 10^6 + 1/2\<rfloor>\<close>.
\<close>

definition round_dp6 :: "nat \<Rightarrow> int \<Rightarrow> nat" where
  "round_dp6 c e =
     (if - 6 \<le> e then c * 10 ^ nat (e + 6)
      else (2 * c + 10 ^ nat (- 6 - e)) div (2 * 10 ^ nat (- 6 - e)))"

definition toFixed6 :: "decimal \<Rightarrow> string" where
  "toFixed6 x =
     with_sign x
       (case x of
          Fin s c e \<Rightarrow>
            (let n = round_dp6 c e;
                 frac = nat_str (n mod 10 ^ 6)
             in nat_str (n div 10 ^ 6) @ ''.'' @ replicate (6 - length frac) (CHR ''0'') @ frac)
        | _ \<Rightarrow> nonFiniteToString x)"

text \<open>
  \<^verbatim>\<open>x.toString()\<close>: every digit of the value, in exponential notation when the exponent of
  the leading digit is \<open>\<le> toExpNeg\<close> or \<open>\<ge> toExpPos\<close>.
\<close>

definition finiteToString :: "nat \<Rightarrow> int \<Rightarrow> string" where
  "finiteToString c e =
     (let (c', e') = strip_zeros c e;
          ds = nat_str c';
          len = int (length ds);
          E = e' + len - 1
      in if c = 0 then ''0''
         else if E \<le> toExpNeg \<or> toExpPos \<le> E then
           (if 1 < len then hd ds # ''.'' @ tl ds else ds) @
           (if E < 0 then ''e-'' else ''e+'') @ nat_str (nat \<bar>E\<bar>)
         else if E < 0 then ''0.'' @ replicate (nat (- E - 1)) (CHR ''0'') @ ds
         else if len \<le> E + 1 then ds @ replicate (nat (E + 1 - len)) (CHR ''0'')
         else take (nat (E + 1)) ds @ ''.'' @ drop (nat (E + 1)) ds)"

definition Decimal_toString :: "decimal \<Rightarrow> string" where
  "Decimal_toString x =
     with_sign x (case x of Fin s c e \<Rightarrow> finiteToString c e | _ \<Rightarrow> nonFiniteToString x)"

subsection \<open>Construction from a string\<close>

text \<open>
  \<^verbatim>\<open>new Decimal(v)\<close> for a string takes one leading sign, minus or plus. What follows is
  first tried as a decimal literal \<^verbatim>\<open>(\d+(\.\d*)?|\.\d+)(e[+-]?\d+)?\<close> (the letter in either
  case): the digits are kept as they are (no rounding to the precision) and the exponent
  is checked against the limits.
\<close>

datatype error = DecimalError string

definition is_digit :: "char \<Rightarrow> bool" where
  "is_digit c \<longleftrightarrow> c \<in> set ''0123456789''"

definition digit_val :: "char \<Rightarrow> nat" where
  "digit_val c = of_char c - 48"

definition digits_val :: "string \<Rightarrow> nat" where
  "digits_val ds = foldl (\<lambda>a c. 10 * a + digit_val c) 0 ds"

definition parse_exponent :: "string \<Rightarrow> int option" where
  "parse_exponent str =
     (case str of
        [] \<Rightarrow> Some 0
      | c # t \<Rightarrow>
          if c = CHR ''e'' \<or> c = CHR ''E'' then
            (let (neg, ds) =
                   (case t of
                      [] \<Rightarrow> (False, t)
                    | d # u \<Rightarrow> if d = CHR ''-'' then (True, u)
                               else if d = CHR ''+'' then (False, u) else (False, t))
             in if ds \<noteq> [] \<and> list_all is_digit ds
                then Some (if neg then - int (digits_val ds) else int (digits_val ds))
                else None)
          else None)"

definition parseDecimal :: "bool \<Rightarrow> string \<Rightarrow> decimal option" where
  "parseDecimal s str =
     (let ip = takeWhile is_digit str;
          r1 = dropWhile is_digit str;
          (fp, r2) =
            (case r1 of
               [] \<Rightarrow> ([], r1)
             | c # t \<Rightarrow> if c = CHR ''.'' then (takeWhile is_digit t, dropWhile is_digit t)
                        else ([], r1))
      in if ip = [] \<and> fp = [] then None
         else (case parse_exponent r2 of
                 None \<Rightarrow> None
               | Some x \<Rightarrow> Some (mkFin s (digits_val (ip @ fp)) (x - int (length fp)))))"

text \<open>
  A string that is no decimal literal goes to the library's \<^verbatim>\<open>parseOther\<close>. When it holds
  an underscore, every underscore between two decimal digits is removed
  (\<^verbatim>\<open>str.replace(/(\d)_(?=\d)/g, '$1')\<close>) and the decimal literal is tried again.
\<close>

fun strip_separators :: "string \<Rightarrow> string" where
  "strip_separators (c # d # t) =
     (if is_digit c \<and> d = CHR ''_'' \<and> t \<noteq> [] \<and> is_digit (hd t)
      then c # strip_separators t
      else c # strip_separators (d # t))"
| "strip_separators cs = cs"

text \<open>
  Literals in base 16, 8 and 2: the prefix \<^verbatim>\<open>0x\<close>, \<^verbatim>\<open>0o\<close> or \<^verbatim>\<open>0b\<close>, digits of the base
  with an optional point, and an optional binary exponent \<^verbatim>\<open>p[+-]?\d+\<close>, letters in either
  case. The library converts the digits as an integer and divides by the power of the
  base that restores the point, at a precision that makes the division exact: the value
  is \<open>N / base^i\<close> for the integer \<open>N\<close> of the digits and \<open>i\<close> digits after the point,
  which is \<open>N * 5^(m * i) / 10^(m * i)\<close> for \<open>base = 2^m\<close>. A zero is returned at once.
\<close>

definition base_digit_val :: "char \<Rightarrow> nat" where
  "base_digit_val c =
     (if c \<in> set ''0123456789'' then of_char c - 48
      else if c \<in> set ''abcdef'' then of_char c - 87
      else if c \<in> set ''ABCDEF'' then of_char c - 55
      else 16)"

definition is_base_digit :: "nat \<Rightarrow> char \<Rightarrow> bool" where
  "is_base_digit b c \<longleftrightarrow> base_digit_val c < b"

definition base_digits_val :: "nat \<Rightarrow> string \<Rightarrow> nat" where
  "base_digits_val b ds = foldl (\<lambda>a c. b * a + base_digit_val c) 0 ds"

definition base_of_prefix :: "char \<Rightarrow> char \<Rightarrow> (nat \<times> nat) option" where
  "base_of_prefix z x =
     (if z \<noteq> CHR ''0'' then None
      else if x = CHR ''x'' \<or> x = CHR ''X'' then Some (16, 4)
      else if x = CHR ''o'' \<or> x = CHR ''O'' then Some (8, 3)
      else if x = CHR ''b'' \<or> x = CHR ''B'' then Some (2, 1)
      else None)"

definition base_value :: "bool \<Rightarrow> nat \<Rightarrow> nat \<Rightarrow> string \<Rightarrow> nat \<Rightarrow> decimal" where
  "base_value s b m ds i =
     (let N = base_digits_val b ds
      in if N = 0 then Fin s 0 0
         else (let (c, e) = strip_zeros (N * 5 ^ (m * i)) (- int (m * i)) in Fin s c e))"

definition parse_binary_exponent :: "string \<Rightarrow> int option" where
  "parse_binary_exponent str =
     (case str of
        [] \<Rightarrow> Some 0
      | c # t \<Rightarrow>
          if c = CHR ''p'' \<or> c = CHR ''P'' then
            (let (neg, ds) =
                   (case t of
                      [] \<Rightarrow> (False, t)
                    | d # u \<Rightarrow> if d = CHR ''-'' then (True, u)
                               else if d = CHR ''+'' then (False, u) else (False, t))
             in if ds \<noteq> [] \<and> list_all is_digit ds
                then Some (if neg then - int (digits_val ds) else int (digits_val ds))
                else None)
          else None)"

text \<open>
  A binary exponent \<open>p \<noteq> 0\<close> multiplies the value by \<open>2^p\<close>. For \<open>\<bar>p\<bar> < 54\<close> the factor is
  the native number \<^verbatim>\<open>Math.pow(2, p)\<close> and the product is exact. The library reads a native
  number through its shortest decimal form: every digit of \<open>2^p\<close> for \<open>0 < p\<close>, and of
  \<open>2^-k\<close> up to \<open>k = 23\<close>; from \<open>k = 24\<close> on that form has 16 or 17 digits.
\<close>

definition pow2_shortest :: "(nat \<times> int) list" where
  "pow2_shortest =
     [(5960464477539063, - 23), (29802322387695312, - 24), (14901161193847656, - 24),
      (7450580596923828, - 24), (3725290298461914, - 24), (1862645149230957, - 24),
      (9313225746154785, - 25), (4656612873077393, - 25), (23283064365386963, - 26),
      (11641532182693481, - 26), (5820766091346741, - 26), (29103830456733704, - 27),
      (14551915228366852, - 27), (7275957614183426, - 27), (3637978807091713, - 27),
      (18189894035458565, - 28), (9094947017729282, - 28), (4547473508864641, - 28),
      (22737367544323206, - 29), (11368683772161603, - 29), (5684341886080802, - 29),
      (2842170943040401, - 29), (14210854715202004, - 30), (7105427357601002, - 30),
      (3552713678800501, - 30), (17763568394002505, - 31), (8881784197001252, - 31),
      (4440892098500626, - 31), (2220446049250313, - 31), (11102230246251565, - 32)]"

definition pow2_number :: "int \<Rightarrow> decimal" where
  "pow2_number p =
     (if 0 \<le> p then Fin False (2 ^ nat p) 0
      else if - 24 < p then Fin False (5 ^ nat (- p)) p
      else (let (c, e) = pow2_shortest ! (nat (- p) - 24) in Fin False c e))"

text \<open>
  For \<open>54 \<le> \<bar>p\<bar>\<close> the factor is \<^verbatim>\<open>Decimal.pow(2, p)\<close> and the product is rounded to the
  precision. The exponent is the native number read from the digits of \<open>p\<close>: an infinity
  from \<open>2^1024 - 2^970\<close> on.
\<close>

definition binary_exponent_number :: "int \<Rightarrow> exponent" where
  "binary_exponent_number p =
     (if 2 ^ 1024 - 2 ^ 970 \<le> p then PosInfinity
      else if p \<le> - (2 ^ 1024 - 2 ^ 970) then NegInfinity
      else Quot p 1)"

definition scale_pow2 ::
  "(decimal \<Rightarrow> int \<Rightarrow> int \<Rightarrow> decimal) \<Rightarrow> decimal \<Rightarrow> int \<Rightarrow> decimal" where
  "scale_pow2 powf x p =
     (if isZero x \<or> p = 0 then x
      else if \<bar>p\<bar> < 54 then times_exact x (pow2_number p)
      else Decimal_mul x (Decimal_pow powf (Fin False 2 0) (binary_exponent_number p)))"

definition parseBase ::
  "(decimal \<Rightarrow> int \<Rightarrow> int \<Rightarrow> decimal) \<Rightarrow> bool \<Rightarrow> string \<Rightarrow> decimal option" where
  "parseBase powf s str =
     (case str of
        z # x # body \<Rightarrow>
          (case base_of_prefix z x of
             None \<Rightarrow> None
           | Some (b, m) \<Rightarrow>
               (let ip = takeWhile (is_base_digit b) body;
                    r1 = dropWhile (is_base_digit b) body;
                    (fp, r2) =
                      (case r1 of
                         [] \<Rightarrow> ([], r1)
                       | c # t \<Rightarrow>
                           if c = CHR ''.''
                           then (takeWhile (is_base_digit b) t, dropWhile (is_base_digit b) t)
                           else ([], r1))
                in if ip = [] \<and> fp = [] then None
                   else (case parse_binary_exponent r2 of
                           None \<Rightarrow> None
                         | Some p \<Rightarrow>
                             Some (scale_pow2 powf (base_value s b m (ip @ fp) (length fp)) p))))
      | _ \<Rightarrow> None)"

text \<open>
  \<^verbatim>\<open>parseOther\<close>: the separators, the words \<^verbatim>\<open>Infinity\<close> and \<^verbatim>\<open>NaN\<close>, the literals of
  another base. Any other string raises.
\<close>

definition invalidArgument :: string where
  "invalidArgument = ''[DecimalError] Invalid argument: ''"

definition parseOther ::
  "(decimal \<Rightarrow> int \<Rightarrow> int \<Rightarrow> decimal) \<Rightarrow> bool \<Rightarrow> string \<Rightarrow> error + decimal" where
  "parseOther powf s str =
     (let str' = (if CHR ''_'' \<in> set str then strip_separators str else str)
      in case (if CHR ''_'' \<in> set str then parseDecimal s str' else None) of
           Some d \<Rightarrow> Inr d
         | None \<Rightarrow>
             if str = ''Infinity'' then Inr (Inf s)
             else if str = ''NaN'' then Inr NaN
             else (case parseBase powf s str' of
                     Some d \<Rightarrow> Inr d
                   | None \<Rightarrow> Inl (DecimalError (invalidArgument @ str'))))"

definition Decimal_new ::
  "(decimal \<Rightarrow> int \<Rightarrow> int \<Rightarrow> decimal) \<Rightarrow> string \<Rightarrow> error + decimal" where
  "Decimal_new powf v =
     (let (s, str) =
            (case v of
               [] \<Rightarrow> (False, v)
             | c # t \<Rightarrow> if c = CHR ''-'' then (True, t)
                        else if c = CHR ''+'' then (False, t) else (False, v))
      in case parseDecimal s str of
           Some d \<Rightarrow> Inr d
         | None \<Rightarrow> parseOther powf s str)"


section \<open>Snapshots and the snapshot store\<close>

text \<open>
  A row of a pool table of the schema. \<open>blockTime\<close> is the value of the row's
  \<^verbatim>\<open>Date\<close>: milliseconds since the epoch. The two amounts are strings.
\<close>

record Pools =
  id :: int
  address :: string
  block :: int
  blockTime :: int
  totalShares :: string
  currentUsdBalance :: string

record PoolsEntries =
  firstEntry :: "Pools option"
  lastEntry :: "Pools option"
  weeklyEntry :: "Pools option"
  yesterdayEntry :: "Pools option"

record PoolsStats =
  stats_address :: string
  baseApy :: string
  avgApy :: string
  dailyBasedApr :: string
  weeklyBasedApr :: string
  earnMultiplier :: string

text \<open>
  The table is the list of its rows in the order the database returns them. The client's
  \<^verbatim>\<open>findFirst\<close> returns the first row of the filtered, ordered result, or null. Among rows
  of equal \<open>blockTime\<close> the ordered queries return the one that comes first in the table.
\<close>

definition findFirst_asc :: "Pools list \<Rightarrow> string \<Rightarrow> Pools option" where
  "findFirst_asc table a =
     (case filter (\<lambda>p. address p = a) table of
        [] \<Rightarrow> None
      | p # ps \<Rightarrow> Some (foldl (\<lambda>m q. if blockTime q < blockTime m then q else m) p ps))"

definition findFirst_desc :: "Pools list \<Rightarrow> string \<Rightarrow> Pools option" where
  "findFirst_desc table a =
     (case filter (\<lambda>p. address p = a) table of
        [] \<Rightarrow> None
      | p # ps \<Rightarrow> Some (foldl (\<lambda>m q. if blockTime m < blockTime q then q else m) p ps))"

definition findFirst_between :: "Pools list \<Rightarrow> string \<Rightarrow> int \<Rightarrow> int \<Rightarrow> Pools option" where
  "findFirst_between table a gte lt =
     find (\<lambda>p. address p = a \<and> gte \<le> blockTime p \<and> blockTime p < lt) table"

text \<open>\<^verbatim>\<open>findMany({where: {}, distinct: ["address"]})\<close>: one row for each address, its first.\<close>

fun findMany_distinct :: "Pools list \<Rightarrow> Pools list" where
  "findMany_distinct [] = []"
| "findMany_distinct (p # ps) =
     p # findMany_distinct (filter (\<lambda>q. address q \<noteq> address p) ps)"

section \<open>Dates\<close>

text \<open>
  A \<^verbatim>\<open>Date\<close> is its time value, milliseconds since the epoch, within the range of the
  language's dates. \<open>DateFromDay\<close> is the day of the month (1 to 31) of a day number in the
  proleptic Gregorian calendar. The host's local time zone is its offset \<open>tz\<close> from UTC
  in milliseconds.
\<close>

definition msPerDay :: int where
  "msPerDay = 86400000"

definition Day :: "int \<Rightarrow> int" where
  "Day t = t div msPerDay"

definition TimeWithinDay :: "int \<Rightarrow> int" where
  "TimeWithinDay t = t mod msPerDay"

definition DateFromDay :: "int \<Rightarrow> int" where
  "DateFromDay z =
     (let doe = (z + 719468) mod 146097;
          yoe = (doe - doe div 1460 + doe div 36524 - doe div 146096) div 365;
          doy = doe - (365 * yoe + yoe div 4 - yoe div 100);
          mp = (5 * doy + 2) div 153
      in doy - (153 * mp + 2) div 5 + 1)"

definition DateFromTime :: "int \<Rightarrow> int" where
  "DateFromTime t = DateFromDay (Day t)"

text \<open>\<^verbatim>\<open>d.setUTCHours(0, 0, 0, 0)\<close>: the start of the UTC day of \<open>t\<close>.\<close>

definition setUTCHours0 :: "int \<Rightarrow> int" where
  "setUTCHours0 t = Day t * msPerDay"

text \<open>\<^verbatim>\<open>d.getDate()\<close>: the day of the month of \<open>t\<close> in the host's local time.\<close>

definition getDate :: "int \<Rightarrow> int \<Rightarrow> int" where
  "getDate tz t = DateFromTime (t + tz)"

text \<open>
  \<^verbatim>\<open>d.setUTCDate(n)\<close>: day \<open>n\<close> of the UTC month of \<open>t\<close>, at the time of day of \<open>t\<close>; \<open>n\<close>
  outside the month counts on into the neighbouring months.
\<close>

definition setUTCDate :: "int \<Rightarrow> int \<Rightarrow> int" where
  "setUTCDate t n = (Day t - DateFromTime t + 1 + (n - 1)) * msPerDay + TimeWithinDay t"

section \<open>The statistics computation\<close>

text \<open>
  \<open>getPoolsEntries\<close> reads the clock (\<open>now\<close>) and queries the table four times.
\<close>

definition weeklyDateMin :: "int \<Rightarrow> int \<Rightarrow> int" where
  "weeklyDateMin tz now =
     (let nowDate = setUTCHours0 now in setUTCDate nowDate (getDate tz nowDate - AVG_DAYS))"

definition weeklyDateMax :: "int \<Rightarrow> int \<Rightarrow> int" where
  "weeklyDateMax tz now =
     (let nowDate = setUTCHours0 now in setUTCDate nowDate (getDate tz nowDate - AVG_DAYS + 1))"

definition yesterdayDateMin :: "int \<Rightarrow> int \<Rightarrow> int" where
  "yesterdayDateMin tz now =
     (let nowDate = setUTCHours0 now in setUTCDate nowDate (getDate tz nowDate - 1))"

definition getPoolsEntries :: "int \<Rightarrow> int \<Rightarrow> Pools list \<Rightarrow> string \<Rightarrow> PoolsEntries" where
  "getPoolsEntries tz now table a =
     \<lparr> firstEntry = findFirst_asc table a,
       lastEntry = findFirst_desc table a,
       weeklyEntry = findFirst_between table a (weeklyDateMin tz now) (weeklyDateMax tz now),
       yesterdayEntry = findFirst_between table a (yesterdayDateMin tz now) (setUTCHours0 now) \<rparr>"

definition USD_SCALE :: decimal where
  "USD_SCALE = Fin False 1 6"

definition SHARES_SCALE :: decimal where
  "SHARES_SCALE = Fin False 1 6"

text \<open>Raising is the left summand: the constructor raises for a string it cannot read.\<close>

definition calculateRatio ::
  "(decimal \<Rightarrow> int \<Rightarrow> int \<Rightarrow> decimal) \<Rightarrow> Pools option \<Rightarrow> error + decimal option" where
  "calculateRatio powf poolEntry =
     (case poolEntry of
        None \<Rightarrow> Inr None
      | Some p \<Rightarrow>
          (case Decimal_new powf (currentUsdBalance p) of
             Inl err \<Rightarrow> Inl err
           | Inr usd \<Rightarrow>
               (case Decimal_new powf (totalShares p) of
                  Inl err \<Rightarrow> Inl err
                | Inr shares \<Rightarrow>
                    Inr (Some (Decimal_div (Decimal_div usd USD_SCALE)
                                           (Decimal_div shares SHARES_SCALE))))))"

text \<open>
  \<^verbatim>\<open>Math.ceil(daysDelta / (1000 * 3600 * 24))\<close> of an integer number of milliseconds: the
  negative zero for a delta strictly between minus one day and zero.
\<close>

definition ceil_days :: "int \<Rightarrow> days" where
  "ceil_days delta =
     (if - msPerDay < delta \<and> delta < 0 then NegZero else Days (- ((- delta) div msPerDay)))"

definition daysElapsedSinceIndexed :: "PoolsEntries \<Rightarrow> days" where
  "daysElapsedSinceIndexed poolsEntries =
     (case firstEntry poolsEntries of
        None \<Rightarrow> Days 0
      | Some f \<Rightarrow>
          (case lastEntry poolsEntries of
             None \<Rightarrow> Days 0
           | Some l \<Rightarrow> ceil_days (blockTime l - blockTime f)))"

definition calculating :: string where
  "calculating = ''calculating..''"

text \<open>The numbers the code passes to the library: 1, 100, 365 and the double \<open>365 / 7\<close>.\<close>

definition dec_1 :: decimal where
  "dec_1 = Fin False 1 0"

definition dec_100 :: decimal where
  "dec_100 = Fin False 1 2"

definition dec_365 :: decimal where
  "dec_365 = Fin False 365 0"

definition dec_365_over_7 :: decimal where
  "dec_365_over_7 = Fin False 52142857142857146 (- 15)"

definition baseApy_of :: "(decimal \<Rightarrow> int \<Rightarrow> int \<Rightarrow> decimal) \<Rightarrow> decimal \<Rightarrow> days \<Rightarrow> string" where
  "baseApy_of powf lastRatio d =
     toFixed6 (Decimal_mul (Decimal_sub (Decimal_pow powf lastRatio (year_fraction d)) dec_1)
                           dec_100)"

definition avgApy_of :: "(decimal \<Rightarrow> int \<Rightarrow> int \<Rightarrow> decimal) \<Rightarrow> decimal \<Rightarrow> decimal \<Rightarrow> string" where
  "avgApy_of powf lastRatio weeklyRatio =
     toFixed6 (Decimal_mul
       (Decimal_sub (Decimal_pow powf (Decimal_div lastRatio weeklyRatio)
                      (Quot DAYS_IN_YEAR AVG_DAYS)) dec_1)
       dec_100)"

definition dailyApr_of :: "decimal \<Rightarrow> decimal \<Rightarrow> string" where
  "dailyApr_of lastRatio yesterdayRatio =
     toFixed6 (Decimal_mul
       (Decimal_mul (Decimal_sub (Decimal_div lastRatio yesterdayRatio) dec_1) dec_365)
       dec_100)"

definition weeklyApr_of :: "decimal \<Rightarrow> decimal \<Rightarrow> string" where
  "weeklyApr_of lastRatio weeklyRatio =
     toFixed6 (Decimal_mul
       (Decimal_mul (Decimal_sub (Decimal_div lastRatio weeklyRatio) dec_1) dec_365_over_7)
       dec_100)"

definition earnMultiplier_of :: "decimal \<Rightarrow> decimal \<Rightarrow> string" where
  "earnMultiplier_of lastRatio yesterdayRatio =
     Decimal_toString (Decimal_sub lastRatio yesterdayRatio)"

definition getPoolsStats ::
  "(decimal \<Rightarrow> int \<Rightarrow> int \<Rightarrow> decimal) \<Rightarrow> string \<Rightarrow> PoolsEntries \<Rightarrow> error + PoolsStats" where
  "getPoolsStats powf a poolsEntries =
     (case calculateRatio powf (lastEntry poolsEntries) of
        Inl err \<Rightarrow> Inl err
      | Inr lastRatio \<Rightarrow>
     (case calculateRatio powf (weeklyEntry poolsEntries) of
        Inl err \<Rightarrow> Inl err
      | Inr weeklyRatio \<Rightarrow>
     (case calculateRatio powf (yesterdayEntry poolsEntries) of
        Inl err \<Rightarrow> Inl err
      | Inr yesterdayRatio \<Rightarrow>
          Inr \<lparr> stats_address = a,
                baseApy =
                  (case lastRatio of
                     None \<Rightarrow> calculating
                   | Some l \<Rightarrow> baseApy_of powf l (daysElapsedSinceIndexed poolsEntries)),
                avgApy =
                  (case (weeklyRatio, lastRatio) of
                     (Some w, Some l) \<Rightarrow> avgApy_of powf l w
                   | _ \<Rightarrow> calculating),
                dailyBasedApr =
                  (case (lastRatio, yesterdayRatio) of
                     (Some l, Some y) \<Rightarrow> dailyApr_of l y
                   | _ \<Rightarrow> calculating),
                weeklyBasedApr =
                  (case (lastRatio, weeklyRatio) of
                     (Some l, Some w) \<Rightarrow> weeklyApr_of l w
                   | _ \<Rightarrow> calculating),
                earnMultiplier =
                  (case (lastRatio, yesterdayRatio) of
                     (Some l, Some y) \<Rightarrow> earnMultiplier_of l y
                   | _ \<Rightarrow> ''0'') \<rparr>)))"

text \<open>
  The loop of \<open>getStats\<close> over the enumerated addresses. Each turn reads the clock anew:
  \<open>clock i\<close> is the reading of turn \<open>i\<close>. A raise ends the loop and no row is returned.
\<close>

fun stats_loop ::
  "(decimal \<Rightarrow> int \<Rightarrow> int \<Rightarrow> decimal) \<Rightarrow> int \<Rightarrow> (nat \<Rightarrow> int) \<Rightarrow> Pools list \<Rightarrow> nat \<Rightarrow>
     string list \<Rightarrow> error + PoolsStats list" where
  "stats_loop powf tz clock table i [] = Inr []"
| "stats_loop powf tz clock table i (a # as) =
     (case getPoolsStats powf a (getPoolsEntries tz (clock i) table a) of
        Inl err \<Rightarrow> Inl err
      | Inr row \<Rightarrow>
          (case stats_loop powf tz clock table (Suc i) as of
             Inl err \<Rightarrow> Inl err
           | Inr rows \<Rightarrow> Inr (row # rows)))"

definition getStats ::
  "(decimal \<Rightarrow> int \<Rightarrow> int \<Rightarrow> decimal) \<Rightarrow> int \<Rightarrow> (nat \<Rightarrow> int) \<Rightarrow> Pools list \<Rightarrow>
     error + PoolsStats list" where
  "getStats powf tz clock table =
     stats_loop powf tz clock table 0 (map address (findMany_distinct table))"

text \<open>
  The handler answers with status 200 and the rows, or, when anything raised, with status
  500 and the error's \<^verbatim>\<open>toString()\<close>.
\<close>

datatype response = Status200 "PoolsStats list" | Status500 string

fun error_toString :: "error \<Rightarrow> string" where
  "error_toString (DecimalError msg) = ''Error: '' @ msg"

definition default_handler ::
  "(decimal \<Rightarrow> int \<Rightarrow> int \<Rightarrow> decimal) \<Rightarrow> int \<Rightarrow> (nat \<Rightarrow> int) \<Rightarrow> Pools list \<Rightarrow> response" where
  "default_handler powf tz clock table =
     (case getStats powf tz clock table of
        Inr stats \<Rightarrow> Status200 stats
      | Inl err \<Rightarrow> Status500 (error_toString err))"

section \<open>Example data\<close>

text \<open>A row with the given address, block time, total shares and balance.\<close>

definition snapshot :: "string \<Rightarrow> int \<Rightarrow> string \<Rightarrow> string \<Rightarrow> Pools" where
  "snapshot a t shares usd =
     \<lparr> id = 0, address = a, block = 0, blockTime = t, totalShares = shares,
       currentUsdBalance = usd \<rparr>"

text \<open>
  The entries of an address whose only snapshot lies outside the weekly window and
  outside yesterday's.
\<close>

definition single_entries :: "Pools \<Rightarrow> PoolsEntries" where
  "single_entries p =
     \<lparr> firstEntry = Some p, lastEntry = Some p, weeklyEntry = None, yesterdayEntry = None \<rparr>"

text \<open>
  The entries of an address whose last snapshot, two days after the first, has zero
  shares and a positive balance; yesterday's snapshot has the ratio 1.1.
\<close>

definition zero_shares_entries :: PoolsEntries where
  "zero_shares_entries =
     \<lparr> firstEntry = Some (snapshot ''A'' 0 ''1000000'' ''1000000''),
       lastEntry = Some (snapshot ''A'' 172800000 ''0'' ''1000000''),
       weeklyEntry = None,
       yesterdayEntry = Some (snapshot ''A'' 86400000 ''1000000'' ''1100000'') \<rparr>"


text \<open>
  Scenario C: the last ratio is 2.0 and yesterday's 1.99; the first snapshot is 365 days
  before the last.
\<close>

definition scenario_C :: PoolsEntries where
  "scenario_C =
     \<lparr> firstEntry = Some (snapshot ''C'' 0 ''1000000'' ''1000000''),
       lastEntry = Some (snapshot ''C'' (365 * 86400000) ''1000000'' ''2000000''),
       weeklyEntry = None,
       yesterdayEntry = Some (snapshot ''C'' (364 * 86400000) ''1000000'' ''1990000'') \<rparr>"


text \<open>
  A table with one snapshot of address \<open>B\<close>, taken on 21 February 2023, and a table that
  holds that row twice. The clock of the examples reads 1 March 2023, 12:00 UTC
  (\<open>1677672000000\<close>).
\<close>

definition one_snapshot_table :: "Pools list" where
  "one_snapshot_table = [snapshot ''B'' 1677000000000 ''1000000'' ''1100000'']"

text \<open>
  A table with one snapshot of address \<open>B\<close>, taken on 28 February 2023 at 16:00 UTC:
  inside the day before the clock's.
\<close>

definition yesterday_table :: "Pools list" where
  "yesterday_table = [snapshot ''B'' 1677600000000 ''1000000'' ''1100000'']"

definition duplicate_table :: "Pools list" where
  "duplicate_table =
     [snapshot ''B'' 1677000000000 ''1000000'' ''1100000'',
      snapshot ''B'' 1677000000000 ''1000000'' ''1100000'']"

section \<open>Predicates of the statements\<close>

text \<open>A block time lies in the half-open window from \<open>gte\<close> to \<open>lt\<close>.\<close>

definition in_window :: "Pools \<Rightarrow> int \<Rightarrow> int \<Rightarrow> bool" where
  "in_window p gte lt \<longleftrightarrow> gte \<le> blockTime p \<and> blockTime p < lt"


text \<open>
  The form in which the library keeps a finite value: a zero has exponent 0; otherwise the
  coefficient has no trailing zero and the exponent of the leading digit is within the
  limits.
\<close>

definition normal :: "decimal \<Rightarrow> bool" where
  "normal x =
     (case x of
        Fin s c e \<Rightarrow>
          (if c = 0 then e = 0
           else c mod 10 \<noteq> 0 \<and> minE \<le> e + int (ndigits c) - 1 \<and>
                e + int (ndigits c) - 1 \<le> maxE)
      | _ \<Rightarrow> True)"

section \<open>Evaluation of the library model on literals\<close>

lemmas arith_eval = round_frac_def exponent_frac_def mkFin_def strip_zeros.simps ndigits.simps
  maxE_def minE_def precision_def Let_def signed_coeff_def

lemmas parse_eval = Decimal_new_def parseDecimal_def parse_exponent_def is_digit_def
  digits_val_def digit_val_def mkFin_def strip_zeros.simps ndigits.simps maxE_def minE_def Let_def

lemma replicate_numeral_eval: "replicate (numeral k) x = x # replicate (pred_numeral k) x"
  by (simp add: numeral_eq_Suc)

lemmas str_eval = nat_str.simps digit_char_def replicate_numeral_eval

lemma new_0: "Decimal_new powf ''0'' = Inr (Fin False 0 0)"
  by (simp add: parse_eval)
lemma new_1000000: "Decimal_new powf ''1000000'' = Inr (Fin False 1 6)"
  by (simp add: parse_eval)
lemma new_1100000: "Decimal_new powf ''1100000'' = Inr (Fin False 11 5)"
  by (simp add: parse_eval)
lemma new_2000000: "Decimal_new powf ''2000000'' = Inr (Fin False 2 6)"
  by (simp add: parse_eval)
lemma new_1990000: "Decimal_new powf ''1990000'' = Inr (Fin False 199 4)"
  by (simp add: parse_eval)
lemma new_3000000: "Decimal_new powf ''3000000'' = Inr (Fin False 3 6)"
  by (simp add: parse_eval)

lemma ratio_0_0: "calculateRatio powf (Some (snapshot a t ''0'' ''0'')) = Inr (Some NaN)"
  by (simp add: calculateRatio_def snapshot_def new_0 USD_SCALE_def SHARES_SCALE_def)

lemma ratio_pos_0: "calculateRatio powf (Some (snapshot a t ''0'' ''1000000'')) = Inr (Some (Inf False))"
  by (simp add: calculateRatio_def snapshot_def new_0 new_1000000 USD_SCALE_def SHARES_SCALE_def arith_eval)

lemma ratio_11: "calculateRatio powf (Some (snapshot a t ''1000000'' ''1100000'')) = Inr (Some (Fin False 11 (- 1)))"
  by (simp add: calculateRatio_def snapshot_def new_1100000 new_1000000 USD_SCALE_def SHARES_SCALE_def arith_eval)

lemma ratio_2: "calculateRatio powf (Some (snapshot a t ''1000000'' ''2000000'')) = Inr (Some (Fin False 2 0))"
  by (simp add: calculateRatio_def snapshot_def new_2000000 new_1000000 USD_SCALE_def SHARES_SCALE_def arith_eval)

lemma ratio_199: "calculateRatio powf (Some (snapshot a t ''1000000'' ''1990000'')) = Inr (Some (Fin False 199 (- 2)))"
  by (simp add: calculateRatio_def snapshot_def new_1990000 new_1000000 USD_SCALE_def SHARES_SCALE_def arith_eval)

lemma ratio_third: "calculateRatio powf (Some (snapshot a t ''3000000'' ''1000000'')) = Inr (Some (Fin False 33333333333333333333 (- 20)))"
  by (simp add: calculateRatio_def snapshot_def new_3000000 new_1000000 USD_SCALE_def SHARES_SCALE_def arith_eval)

lemma fixed_NaN: "toFixed6 NaN = ''NaN''"
  by (simp add: toFixed6_def with_sign_def nonFiniteToString_def)

lemma fixed_Inf: "toFixed6 (Inf False) = ''Infinity''"
  by (simp add: toFixed6_def with_sign_def nonFiniteToString_def)

lemma pct_zero: "Decimal_mul (Decimal_sub (Fin False 0 0) dec_1) dec_100 = Fin True 1 2"
  by (simp add: dec_1_def dec_100_def arith_eval)

lemma fixed_minus_100: "toFixed6 (Fin True 1 2) = ''-100.000000''"
  apply (simp add: toFixed6_def round_dp6_def with_sign_def Let_def)
  apply (simp add: str_eval)
  done



lemma near_one_11: "\<not> near_one (mag (Fin False 11 (- 1)))" "1 < mag (Fin False 11 (- 1))"
  by (simp_all add: near_one_def mag.simps)

lemma getPoolsStats_ratios:
  assumes "calculateRatio powf (lastEntry e) = Inr lr"
    and "calculateRatio powf (weeklyEntry e) = Inr wr"
    and "calculateRatio powf (yesterdayEntry e) = Inr yr"
  shows "getPoolsStats powf a e =
     Inr \<lparr> stats_address = a,
           baseApy = (case lr of None \<Rightarrow> calculating
                      | Some l \<Rightarrow> baseApy_of powf l (daysElapsedSinceIndexed e)),
           avgApy = (case (wr, lr) of (Some w, Some l) \<Rightarrow> avgApy_of powf l w | _ \<Rightarrow> calculating),
           dailyBasedApr = (case (lr, yr) of (Some l, Some y) \<Rightarrow> dailyApr_of l y | _ \<Rightarrow> calculating),
           weeklyBasedApr = (case (lr, wr) of (Some l, Some w) \<Rightarrow> weeklyApr_of l w | _ \<Rightarrow> calculating),
           earnMultiplier = (case (lr, yr) of (Some l, Some y) \<Rightarrow> earnMultiplier_of l y | _ \<Rightarrow> ''0'') \<rparr>"
  using assms by (simp add: getPoolsStats_def)

lemma calculateRatio_None: "calculateRatio powf None = Inr None"
  by (simp add: calculateRatio_def)

lemma pct_Inf: "Decimal_mul (Decimal_sub (Inf False) dec_1) dec_100 = Inf False"
  by (simp add: dec_1_def dec_100_def)

lemma pct_NaN: "Decimal_mul (Decimal_sub NaN dec_1) dec_100 = NaN"
  by (simp add: dec_1_def dec_100_def)

lemma str_zero: "toFixed6 (Decimal_mul (Decimal_sub (Fin False 0 0) dec_1) dec_100) = ''-100.000000''"
  by (simp only: pct_zero fixed_minus_100)

lemma str_Inf: "toFixed6 (Decimal_mul (Decimal_sub (Inf False) dec_1) dec_100) = ''Infinity''"
  by (simp only: pct_Inf fixed_Inf)

lemma str_NaN: "toFixed6 (Decimal_mul (Decimal_sub NaN dec_1) dec_100) = ''NaN''"
  by (simp only: pct_NaN fixed_NaN)

lemmas pct_str = str_zero str_Inf str_NaN fixed_NaN fixed_Inf

lemma baseApy_of_NaN: "baseApy_of powf NaN d = ''NaN''"
  by (cases "year_fraction d") (simp_all add: baseApy_of_def pct_str)

lemma Math_pow_inf_cases:
  "y = PosInfinity \<or> y = NegInfinity \<Longrightarrow>
     Math_pow x y = NaN \<or> Math_pow x y = Inf False \<or> Math_pow x y = Fin False 0 0"
  by (cases x) (auto split: if_splits)

lemma Decimal_pow_inf: "y = PosInfinity \<or> y = NegInfinity \<Longrightarrow> Decimal_pow powf x y = Math_pow x y"
  by (cases x) auto

lemma baseApy_of_zero_days:
  assumes "d = Days 0 \<or> d = NegZero"
  shows "baseApy_of powf l d \<in> {''Infinity'', ''-100.000000'', ''NaN''}"
proof -
  from assms have y: "year_fraction d = PosInfinity \<or> year_fraction d = NegInfinity"
    by auto
  then have p: "Decimal_pow powf l (year_fraction d) = Math_pow l (year_fraction d)"
    by (rule Decimal_pow_inf)
  from Math_pow_inf_cases [OF y, of l] show ?thesis
    unfolding baseApy_of_def p
    by (auto simp add: pct_str)
qed

lemma baseApy_of_Days_0:
  "baseApy_of powf l (Days 0) =
     (if isNaN l \<or> (isFinite l \<and> \<not> isZero l \<and> near_one (mag l)) then ''NaN''
      else if \<not> isFinite l \<or> (\<not> isZero l \<and> 1 < mag l) then ''Infinity''
      else ''-100.000000'')"
  by (cases l)
    (simp_all add: baseApy_of_def pct_str)

lemma calculating_not_in: "calculating \<notin> {''Infinity'', ''-100.000000'', ''NaN''}"
  by (simp add: calculating_def)

lemma days_single: "daysElapsedSinceIndexed (single_entries p) = Days 0"
  by (simp add: daysElapsedSinceIndexed_def single_entries_def ceil_days_def msPerDay_def)

lemma getPoolsStats_InrD:
  assumes "getPoolsStats powf a e = Inr r"
  obtains lr wr yr where "calculateRatio powf (lastEntry e) = Inr lr"
    and "calculateRatio powf (weeklyEntry e) = Inr wr"
    and "calculateRatio powf (yesterdayEntry e) = Inr yr"
proof -
  from assms have "\<exists>lr wr yr. calculateRatio powf (lastEntry e) = Inr lr \<and>
      calculateRatio powf (weeklyEntry e) = Inr wr \<and> calculateRatio powf (yesterdayEntry e) = Inr yr"
    unfolding getPoolsStats_def by (auto split: sum.splits)
  then show thesis using that by blast
qed

lemma div_by_zero_not_finite: "\<not> isFinite (Decimal_div x (Fin s 0 0))"
  by (cases x) simp_all

lemma div_zero_by_scale: "isZero z \<Longrightarrow> \<exists>s. Decimal_div z SHARES_SCALE = Fin s 0 0"
  by (cases z) (simp_all add: SHARES_SCALE_def)

lemma calculateRatio_Some_InrD:
  assumes "calculateRatio powf (Some p) = Inr q"
  obtains u t where "Decimal_new powf (currentUsdBalance p) = Inr u"
    and "Decimal_new powf (totalShares p) = Inr t"
    and "q = Some (Decimal_div (Decimal_div u USD_SCALE) (Decimal_div t SHARES_SCALE))"
proof -
  from assms have "\<exists>u t. Decimal_new powf (currentUsdBalance p) = Inr u \<and>
      Decimal_new powf (totalShares p) = Inr t \<and>
      q = Some (Decimal_div (Decimal_div u USD_SCALE) (Decimal_div t SHARES_SCALE))"
    unfolding calculateRatio_def by (auto split: sum.splits)
  then show thesis using that by blast
qed

lemma zero_shares_ratio:
  assumes "calculateRatio powf (Some p) = Inr q"
    and "Decimal_new powf (totalShares p) = Inr z" and "isZero z"
  shows "\<exists>x. q = Some x \<and> \<not> isFinite x"
proof -
  from assms(1) obtain u t where t: "Decimal_new powf (totalShares p) = Inr t"
    and q: "q = Some (Decimal_div (Decimal_div u USD_SCALE) (Decimal_div t SHARES_SCALE))"
    by (rule calculateRatio_Some_InrD)
  from t assms(2) have "t = z" by simp
  with assms(3) obtain s where "Decimal_div t SHARES_SCALE = Fin s 0 0"
    using div_zero_by_scale by blast
  with q show ?thesis
    by (simp add: div_by_zero_not_finite)
qed

lemma not_finite_NaN: "isNaN x \<Longrightarrow> x = NaN"
  by (cases x) simp_all

lemma single_ratios:
  "calculateRatio powf (weeklyEntry (single_entries p)) = Inr None"
  "calculateRatio powf (yesterdayEntry (single_entries p)) = Inr None"
  "lastEntry (single_entries p) = Some p"
  by (simp_all add: single_entries_def calculateRatio_None)

lemma single_stats:
  assumes "calculateRatio powf (Some p) = Inr (Some q)"
  shows "getPoolsStats powf a (single_entries p) =
     Inr \<lparr> stats_address = a, baseApy = baseApy_of powf q (Days 0), avgApy = calculating,
           dailyBasedApr = calculating, weeklyBasedApr = calculating, earnMultiplier = ''0'' \<rparr>"
proof -
  have l: "calculateRatio powf (lastEntry (single_entries p)) = Inr (Some q)"
    using assms by (simp add: single_ratios)
  show ?thesis
    unfolding getPoolsStats_ratios [OF l single_ratios(1) single_ratios(2)] days_single
    by simp
qed

section \<open>Zero shares (C1)\<close>

text \<open>
  A ratio that is not finite stays not finite through the divisions, the power, the
  subtractions and the multiplications, and the strings are those of the special values.
\<close>

lemma fixed_neg_Inf: "toFixed6 (Inf True) = ''-Infinity''"
  by (simp add: toFixed6_def with_sign_def nonFiniteToString_def)

lemma str_neg_zero:
  "toFixed6 (Decimal_mul (Decimal_sub (Fin True 0 0) dec_1) dec_100) = ''-100.000000''"
proof -
  have "Decimal_mul (Decimal_sub (Fin True 0 0) dec_1) dec_100 = Fin True 1 2"
    by (simp add: dec_1_def dec_100_def arith_eval)
  then show ?thesis by (simp only: fixed_minus_100)
qed

lemma str_neg_Inf: "toFixed6 (Decimal_mul (Decimal_sub (Inf True) dec_1) dec_100) = ''-Infinity''"
  by (simp add: dec_1_def dec_100_def fixed_neg_Inf)

lemma not_finite_cases: "\<not> isFinite q \<Longrightarrow> q = NaN \<or> q = Inf False \<or> q = Inf True"
  by (cases q) auto

lemma Math_pow_Inf_cases:
  "Math_pow (Inf s) y \<in> {Inf False, Inf True, Fin False 0 0, Fin True 0 0}"
  by (cases y; cases s) simp_all

lemma baseApy_of_not_finite:
  assumes "\<not> isFinite q"
  shows "baseApy_of powf q d \<in> {''NaN'', ''Infinity'', ''-Infinity'', ''-100.000000''}"
proof (cases q)
  case NaN
  then show ?thesis by (simp add: baseApy_of_NaN)
next
  case (Inf s)
  have "Decimal_pow powf (Inf s) (year_fraction d) = Math_pow (Inf s) (year_fraction d)"
    by simp
  with Math_pow_Inf_cases [of s "year_fraction d"] Inf show ?thesis
    unfolding baseApy_of_def
    by (auto simp add: pct_str str_neg_zero str_neg_Inf)
next
  case (Fin s c e)
  with assms show ?thesis by simp
qed

lemma div_not_finite:
  assumes "\<not> isFinite l"
  shows "Decimal_div l w = NaN \<or> Decimal_div l w = Inf False \<or> Decimal_div l w = Inf True"
  using not_finite_cases [OF assms] by (cases w) auto

lemma pow_weekly_not_finite:
  assumes "x = NaN \<or> x = Inf False \<or> x = Inf True"
  shows "Decimal_pow powf x (Quot DAYS_IN_YEAR AVG_DAYS) = NaN \<or>
         Decimal_pow powf x (Quot DAYS_IN_YEAR AVG_DAYS) = Inf False"
  using assms
  by (auto simp add: DAYS_IN_YEAR_def AVG_DAYS_def positive_quot_def odd_integer_def)

lemma avgApy_of_not_finite:
  assumes "\<not> isFinite l"
  shows "avgApy_of powf l w \<in> {''NaN'', ''Infinity''}"
  using pow_weekly_not_finite [OF div_not_finite [OF assms], of powf w]
  unfolding avgApy_of_def by (auto simp add: pct_str)

lemma apr_not_finite:
  assumes "x = NaN \<or> x = Inf False \<or> x = Inf True" and "isFinite k" and "\<not> isZero k"
    and "\<not> isNeg k"
  shows "toFixed6 (Decimal_mul (Decimal_mul (Decimal_sub x dec_1) k) dec_100)
           \<in> {''NaN'', ''Infinity'', ''-Infinity''}"
proof -
  from assms(2-4) obtain c e where k: "k = Fin False c e" and c: "c \<noteq> 0"
    by (cases k) auto
  from assms(1) show ?thesis
    unfolding k using c
    by (auto simp add: dec_1_def dec_100_def fixed_NaN fixed_Inf fixed_neg_Inf)
qed

lemma weeklyApr_of_not_finite:
  assumes "\<not> isFinite l"
  shows "weeklyApr_of l w \<in> {''NaN'', ''Infinity'', ''-Infinity''}"
  unfolding weeklyApr_of_def
  by (rule apr_not_finite [OF div_not_finite [OF assms]]) (simp_all add: dec_365_over_7_def)

lemma dailyApr_of_not_finite:
  assumes "\<not> isFinite l"
  shows "dailyApr_of l y \<in> {''NaN'', ''Infinity'', ''-Infinity''}"
  unfolding dailyApr_of_def
  by (rule apr_not_finite [OF div_not_finite [OF assms]]) (simp_all add: dec_365_def)

lemma earnMultiplier_of_not_finite:
  assumes "\<not> isFinite l"
  shows "earnMultiplier_of l y \<in> {''NaN'', ''Infinity'', ''-Infinity''}"
proof -
  have "Decimal_sub l y = NaN \<or> Decimal_sub l y = Inf False \<or> Decimal_sub l y = Inf True"
    using not_finite_cases [OF assms] by (cases y) (auto split: if_splits)
  then show ?thesis
    unfolding earnMultiplier_of_def
    by (auto simp add: Decimal_toString_def with_sign_def nonFiniteToString_def)
qed

text \<open>The amounts of the first snapshot are never read: only its block time is.\<close>

lemma first_amounts_unread:
  assumes "firstEntry e = Some f"
  shows "getPoolsStats powf a
           (e\<lparr>firstEntry := Some (f\<lparr>totalShares := sh, currentUsdBalance := usd\<rparr>)\<rparr>) =
         getPoolsStats powf a e"
proof -
  let ?e = "e\<lparr>firstEntry := Some (f\<lparr>totalShares := sh, currentUsdBalance := usd\<rparr>)\<rparr>"
  have d: "daysElapsedSinceIndexed ?e = daysElapsedSinceIndexed e"
    using assms by (simp add: daysElapsedSinceIndexed_def split: option.splits)
  have f: "lastEntry ?e = lastEntry e" "weeklyEntry ?e = weeklyEntry e"
    "yesterdayEntry ?e = yesterdayEntry e"
    by simp_all
  show ?thesis
    unfolding getPoolsStats_def d f by (rule refl)
qed

text \<open>
  The entries of an address whose last snapshot has zero shares and a positive balance,
  two days after the first; yesterday's snapshot has the ratio 1.1.
\<close>

lemma zero_shares_entries_ratios:
  "calculateRatio powf (lastEntry zero_shares_entries) = Inr (Some (Inf False))"
  "calculateRatio powf (weeklyEntry zero_shares_entries) = Inr None"
  "calculateRatio powf (yesterdayEntry zero_shares_entries) = Inr (Some (Fin False 11 (- 1)))"
  by (simp_all add: zero_shares_entries_def ratio_pos_0 ratio_11 calculateRatio_None)

lemma zero_shares_entries_stats:
  "getPoolsStats powf ''A'' zero_shares_entries =
     Inr \<lparr> stats_address = ''A'', baseApy = ''Infinity'', avgApy = ''calculating..'',
           dailyBasedApr = ''Infinity'', weeklyBasedApr = ''calculating..'',
           earnMultiplier = ''Infinity'' \<rparr>"
proof -
  have d: "daysElapsedSinceIndexed zero_shares_entries = Days 2"
    by (simp add: daysElapsedSinceIndexed_def zero_shares_entries_def snapshot_def ceil_days_def
        msPerDay_def)
  have b: "baseApy_of powf (Inf False) (Days 2) = ''Infinity''"
    by (simp add: baseApy_of_def DAYS_IN_YEAR_def positive_quot_def pct_str)
  have a: "dailyApr_of (Inf False) (Fin False 11 (- 1)) = ''Infinity''"
    by (simp add: dailyApr_of_def dec_1_def dec_365_def dec_100_def fixed_Inf)
  have m: "earnMultiplier_of (Inf False) (Fin False 11 (- 1)) = ''Infinity''"
    by (simp add: earnMultiplier_of_def Decimal_toString_def with_sign_def
        nonFiniteToString_def)
  show ?thesis
    unfolding getPoolsStats_ratios [OF zero_shares_entries_ratios] d
    by (simp add: b a m calculating_def)
qed

text \<open>
  C1, as amended. When \<open>getPoolsStats\<close> returns a row: an absent last snapshot gives the
  placeholder in all five fields, an absent weekly snapshot gives \<open>calculating..\<close> in
  \<open>avgApy\<close> and \<open>weeklyBasedApr\<close>, an absent yesterday snapshot gives \<open>calculating..\<close> in
  \<open>dailyBasedApr\<close> and \<open>0\<close> in \<open>earnMultiplier\<close>; the shares and the balance of the
  first snapshot are never read. A present last snapshot whose \<open>totalShares\<close> decodes to
  zero is not absent: its ratio is present and is not finite (not-a-number or an
  infinity), and the metrics are computed from it. \<open>baseApy\<close> is \<open>NaN\<close>, \<open>Infinity\<close>,
  \<open>-Infinity\<close> or \<open>-100.000000\<close>, and \<open>NaN\<close> for the not-a-number ratio. With a weekly
  snapshot whose ratio is not not-a-number, \<open>avgApy\<close> is \<open>NaN\<close> or \<open>Infinity\<close> and
  \<open>weeklyBasedApr\<close> is \<open>NaN\<close>, \<open>Infinity\<close> or \<open>-Infinity\<close>; with a yesterday snapshot
  whose ratio is not not-a-number, \<open>dailyBasedApr\<close> and \<open>earnMultiplier\<close> are \<open>NaN\<close>,
  \<open>Infinity\<close> or \<open>-Infinity\<close>.
\<close>

theorem absent_snapshot_placeholders:
  assumes "getPoolsStats powf a e = Inr r"
  shows "(lastEntry e = None \<longrightarrow>
            baseApy r = calculating \<and> avgApy r = calculating \<and> dailyBasedApr r = calculating \<and>
            weeklyBasedApr r = calculating \<and> earnMultiplier r = ''0'') \<and>
         (weeklyEntry e = None \<longrightarrow> avgApy r = calculating \<and> weeklyBasedApr r = calculating) \<and>
         (yesterdayEntry e = None \<longrightarrow> dailyBasedApr r = calculating \<and> earnMultiplier r = ''0'') \<and>
         (\<forall>f sh usd. firstEntry e = Some f \<longrightarrow>
            getPoolsStats powf a
              (e\<lparr>firstEntry := Some (f\<lparr>totalShares := sh, currentUsdBalance := usd\<rparr>)\<rparr>) = Inr r) \<and>
         (\<forall>p z. lastEntry e = Some p \<and> Decimal_new powf (totalShares p) = Inr z \<and> isZero z \<longrightarrow>
            (\<exists>q. calculateRatio powf (lastEntry e) = Inr (Some q) \<and> \<not> isFinite q \<and>
                 baseApy r = baseApy_of powf q (daysElapsedSinceIndexed e) \<and>
                 baseApy r \<in> {''NaN'', ''Infinity'', ''-Infinity'', ''-100.000000''} \<and>
                 (isNaN q \<longrightarrow> baseApy r = ''NaN'') \<and>
                 (\<forall>w. calculateRatio powf (weeklyEntry e) = Inr (Some w) \<and> \<not> isNaN w \<longrightarrow>
                    avgApy r = avgApy_of powf q w \<and> avgApy r \<in> {''NaN'', ''Infinity''} \<and>
                    weeklyBasedApr r = weeklyApr_of q w \<and>
                    weeklyBasedApr r \<in> {''NaN'', ''Infinity'', ''-Infinity''}) \<and>
                 (\<forall>y. calculateRatio powf (yesterdayEntry e) = Inr (Some y) \<and> \<not> isNaN y \<longrightarrow>
                    dailyBasedApr r = dailyApr_of q y \<and>
                    dailyBasedApr r \<in> {''NaN'', ''Infinity'', ''-Infinity''} \<and>
                    earnMultiplier r = earnMultiplier_of q y \<and>
                    earnMultiplier r \<in> {''NaN'', ''Infinity'', ''-Infinity''})))"
proof -
  from assms obtain lr wr yr where l: "calculateRatio powf (lastEntry e) = Inr lr"
    and w: "calculateRatio powf (weeklyEntry e) = Inr wr"
    and y: "calculateRatio powf (yesterdayEntry e) = Inr yr"
    by (rule getPoolsStats_InrD)
  note r = assms [unfolded getPoolsStats_ratios [OF l w y]]
  have a1: "lastEntry e = None \<longrightarrow>
            baseApy r = calculating \<and> avgApy r = calculating \<and> dailyBasedApr r = calculating \<and>
            weeklyBasedApr r = calculating \<and> earnMultiplier r = ''0''"
    using r l by (auto simp add: calculateRatio_None split: option.splits)
  have a2: "weeklyEntry e = None \<longrightarrow> avgApy r = calculating \<and> weeklyBasedApr r = calculating"
    using r w by (auto simp add: calculateRatio_None split: option.splits)
  have a3: "yesterdayEntry e = None \<longrightarrow> dailyBasedApr r = calculating \<and> earnMultiplier r = ''0''"
    using r y by (auto simp add: calculateRatio_None split: option.splits)
  have a4: "\<forall>f sh usd. firstEntry e = Some f \<longrightarrow>
            getPoolsStats powf a
              (e\<lparr>firstEntry := Some (f\<lparr>totalShares := sh, currentUsdBalance := usd\<rparr>)\<rparr>) = Inr r"
    using assms by (simp add: first_amounts_unread)
  have a5: "\<forall>p z. lastEntry e = Some p \<and> Decimal_new powf (totalShares p) = Inr z \<and> isZero z \<longrightarrow>
            (\<exists>q. calculateRatio powf (lastEntry e) = Inr (Some q) \<and> \<not> isFinite q \<and>
                 baseApy r = baseApy_of powf q (daysElapsedSinceIndexed e) \<and>
                 baseApy r \<in> {''NaN'', ''Infinity'', ''-Infinity'', ''-100.000000''} \<and>
                 (isNaN q \<longrightarrow> baseApy r = ''NaN'') \<and>
                 (\<forall>w. calculateRatio powf (weeklyEntry e) = Inr (Some w) \<and> \<not> isNaN w \<longrightarrow>
                    avgApy r = avgApy_of powf q w \<and> avgApy r \<in> {''NaN'', ''Infinity''} \<and>
                    weeklyBasedApr r = weeklyApr_of q w \<and>
                    weeklyBasedApr r \<in> {''NaN'', ''Infinity'', ''-Infinity''}) \<and>
                 (\<forall>y. calculateRatio powf (yesterdayEntry e) = Inr (Some y) \<and> \<not> isNaN y \<longrightarrow>
                    dailyBasedApr r = dailyApr_of q y \<and>
                    dailyBasedApr r \<in> {''NaN'', ''Infinity'', ''-Infinity''} \<and>
                    earnMultiplier r = earnMultiplier_of q y \<and>
                    earnMultiplier r \<in> {''NaN'', ''Infinity'', ''-Infinity''}))"
  proof (intro allI impI)
    fix p z
    assume h: "lastEntry e = Some p \<and> Decimal_new powf (totalShares p) = Inr z \<and> isZero z"
    with l have "calculateRatio powf (Some p) = Inr lr" by simp
    with h obtain x where x: "lr = Some x" "\<not> isFinite x"
      using zero_shares_ratio by blast
    have b: "baseApy r = baseApy_of powf x (daysElapsedSinceIndexed e)"
      using r x by auto
    have b1: "baseApy r \<in> {''NaN'', ''Infinity'', ''-Infinity'', ''-100.000000''}"
      unfolding b by (rule baseApy_of_not_finite [OF x(2)])
    have b2: "isNaN x \<longrightarrow> baseApy r = ''NaN''"
      using b by (auto dest!: not_finite_NaN simp add: baseApy_of_NaN)
    have b3: "\<forall>w. calculateRatio powf (weeklyEntry e) = Inr (Some w) \<and> \<not> isNaN w \<longrightarrow>
                    avgApy r = avgApy_of powf x w \<and> avgApy r \<in> {''NaN'', ''Infinity''} \<and>
                    weeklyBasedApr r = weeklyApr_of x w \<and>
                    weeklyBasedApr r \<in> {''NaN'', ''Infinity'', ''-Infinity''}"
    proof (intro allI impI)
      fix w'
      assume "calculateRatio powf (weeklyEntry e) = Inr (Some w') \<and> \<not> isNaN w'"
      with w have wr: "wr = Some w'" by simp
      have e1: "avgApy r = avgApy_of powf x w'" and e2: "weeklyBasedApr r = weeklyApr_of x w'"
        using r x wr by auto
      show "avgApy r = avgApy_of powf x w' \<and> avgApy r \<in> {''NaN'', ''Infinity''} \<and>
            weeklyBasedApr r = weeklyApr_of x w' \<and>
            weeklyBasedApr r \<in> {''NaN'', ''Infinity'', ''-Infinity''}"
        using e1 e2 avgApy_of_not_finite [OF x(2), of powf w'] weeklyApr_of_not_finite [OF x(2), of w']
        by simp
    qed
    have b4: "\<forall>y. calculateRatio powf (yesterdayEntry e) = Inr (Some y) \<and> \<not> isNaN y \<longrightarrow>
                    dailyBasedApr r = dailyApr_of x y \<and>
                    dailyBasedApr r \<in> {''NaN'', ''Infinity'', ''-Infinity''} \<and>
                    earnMultiplier r = earnMultiplier_of x y \<and>
                    earnMultiplier r \<in> {''NaN'', ''Infinity'', ''-Infinity''}"
    proof (intro allI impI)
      fix y'
      assume "calculateRatio powf (yesterdayEntry e) = Inr (Some y') \<and> \<not> isNaN y'"
      with y have yr: "yr = Some y'" by simp
      have e1: "dailyBasedApr r = dailyApr_of x y'" and e2: "earnMultiplier r = earnMultiplier_of x y'"
        using r x yr by auto
      show "dailyBasedApr r = dailyApr_of x y' \<and>
            dailyBasedApr r \<in> {''NaN'', ''Infinity'', ''-Infinity''} \<and>
            earnMultiplier r = earnMultiplier_of x y' \<and>
            earnMultiplier r \<in> {''NaN'', ''Infinity'', ''-Infinity''}"
        using e1 e2 dailyApr_of_not_finite [OF x(2), of y'] earnMultiplier_of_not_finite [OF x(2), of y']
        by simp
    qed
    from x b b1 b2 b3 b4 l
    show "\<exists>q. calculateRatio powf (lastEntry e) = Inr (Some q) \<and> \<not> isFinite q \<and>
                 baseApy r = baseApy_of powf q (daysElapsedSinceIndexed e) \<and>
                 baseApy r \<in> {''NaN'', ''Infinity'', ''-Infinity'', ''-100.000000''} \<and>
                 (isNaN q \<longrightarrow> baseApy r = ''NaN'') \<and>
                 (\<forall>w. calculateRatio powf (weeklyEntry e) = Inr (Some w) \<and> \<not> isNaN w \<longrightarrow>
                    avgApy r = avgApy_of powf q w \<and> avgApy r \<in> {''NaN'', ''Infinity''} \<and>
                    weeklyBasedApr r = weeklyApr_of q w \<and>
                    weeklyBasedApr r \<in> {''NaN'', ''Infinity'', ''-Infinity''}) \<and>
                 (\<forall>y. calculateRatio powf (yesterdayEntry e) = Inr (Some y) \<and> \<not> isNaN y \<longrightarrow>
                    dailyBasedApr r = dailyApr_of q y \<and>
                    dailyBasedApr r \<in> {''NaN'', ''Infinity'', ''-Infinity''} \<and>
                    earnMultiplier r = earnMultiplier_of q y \<and>
                    earnMultiplier r \<in> {''NaN'', ''Infinity'', ''-Infinity''})"
      by blast
  qed
  from a1 a2 a3 a4 a5 show ?thesis by blast
qed

text \<open>
  The claim as stated fails: the only snapshot of an address has zero shares. With a zero
  balance \<open>baseApy\<close> is \<open>NaN\<close>, with a positive balance it is \<open>Infinity\<close>; neither is
  the placeholder.
\<close>

theorem zero_shares_give_NaN_and_Infinity:
  "\<forall>powf.
     Decimal_new powf (totalShares (snapshot ''A'' 0 ''0'' ''0'')) = Inr (Fin False 0 0) \<and>
     getPoolsStats powf ''A'' (single_entries (snapshot ''A'' 0 ''0'' ''0'')) =
       Inr \<lparr> stats_address = ''A'', baseApy = ''NaN'', avgApy = ''calculating..'',
             dailyBasedApr = ''calculating..'', weeklyBasedApr = ''calculating..'',
             earnMultiplier = ''0'' \<rparr> \<and>
     getPoolsStats powf ''A'' (single_entries (snapshot ''A'' 0 ''0'' ''1000000'')) =
       Inr \<lparr> stats_address = ''A'', baseApy = ''Infinity'', avgApy = ''calculating..'',
             dailyBasedApr = ''calculating..'', weeklyBasedApr = ''calculating..'',
             earnMultiplier = ''0'' \<rparr>"
proof (intro conjI allI)
  fix powf
  show "Decimal_new powf (totalShares (snapshot ''A'' 0 ''0'' ''0'')) = Inr (Fin False 0 0)"
    by (simp add: snapshot_def new_0)
next
  fix powf
  show "getPoolsStats powf ''A'' (single_entries (snapshot ''A'' 0 ''0'' ''0'')) =
      Inr \<lparr> stats_address = ''A'', baseApy = ''NaN'', avgApy = ''calculating..'',
            dailyBasedApr = ''calculating..'', weeklyBasedApr = ''calculating..'',
            earnMultiplier = ''0'' \<rparr>"
    by (simp add: single_stats [OF ratio_0_0] baseApy_of_Days_0 calculating_def)
next
  fix powf
  show "getPoolsStats powf ''A'' (single_entries (snapshot ''A'' 0 ''0'' ''1000000'')) =
      Inr \<lparr> stats_address = ''A'', baseApy = ''Infinity'', avgApy = ''calculating..'',
            dailyBasedApr = ''calculating..'', weeklyBasedApr = ''calculating..'',
            earnMultiplier = ''0'' \<rparr>"
    by (simp add: single_stats [OF ratio_pos_0] baseApy_of_Days_0 calculating_def)
qed

theorem absent_snapshot_placeholders_witness:
  "\<forall>powf.
     getPoolsStats powf ''A'' zero_shares_entries =
       Inr \<lparr> stats_address = ''A'', baseApy = ''Infinity'', avgApy = ''calculating..'',
             dailyBasedApr = ''Infinity'', weeklyBasedApr = ''calculating..'',
             earnMultiplier = ''Infinity'' \<rparr> \<and>
     (\<exists>r. getPoolsStats powf ''A'' zero_shares_entries = Inr r \<and>
          avgApy r = calculating \<and> weeklyBasedApr r = calculating \<and>
          baseApy r \<in> {''NaN'', ''Infinity'', ''-Infinity'', ''-100.000000''} \<and>
          dailyBasedApr r \<in> {''NaN'', ''Infinity'', ''-Infinity''} \<and>
          earnMultiplier r \<in> {''NaN'', ''Infinity'', ''-Infinity''})"
proof (intro allI conjI)
  fix powf
  show "getPoolsStats powf ''A'' zero_shares_entries =
       Inr \<lparr> stats_address = ''A'', baseApy = ''Infinity'', avgApy = ''calculating..'',
             dailyBasedApr = ''Infinity'', weeklyBasedApr = ''calculating..'',
             earnMultiplier = ''Infinity'' \<rparr>"
    by (rule zero_shares_entries_stats)
next
  fix powf
  let ?r = "\<lparr> stats_address = ''A'', baseApy = ''Infinity'', avgApy = ''calculating..'',
             dailyBasedApr = ''Infinity'', weeklyBasedApr = ''calculating..'',
             earnMultiplier = ''Infinity'' \<rparr>"
  have g: "getPoolsStats powf ''A'' zero_shares_entries = Inr ?r"
    by (rule zero_shares_entries_stats)
  note t = absent_snapshot_placeholders [OF g]
  have w: "weeklyEntry zero_shares_entries = None"
    by (simp add: zero_shares_entries_def)
  have z: "lastEntry zero_shares_entries = Some (snapshot ''A'' 172800000 ''0'' ''1000000'') \<and>
      Decimal_new powf (totalShares (snapshot ''A'' 172800000 ''0'' ''1000000'')) = Inr (Fin False 0 0) \<and>
      isZero (Fin False 0 0)"
    by (simp add: zero_shares_entries_def snapshot_def new_0)
  have y: "calculateRatio powf (yesterdayEntry zero_shares_entries) = Inr (Some (Fin False 11 (- 1))) \<and>
      \<not> isNaN (Fin False 11 (- 1))"
    by (simp add: zero_shares_entries_ratios)
  from t w have c1: "avgApy ?r = calculating \<and> weeklyBasedApr ?r = calculating"
    by blast
  from t z have c2: "baseApy ?r \<in> {''NaN'', ''Infinity'', ''-Infinity'', ''-100.000000''}"
    by blast
  from t z y have c3: "dailyBasedApr ?r \<in> {''NaN'', ''Infinity'', ''-Infinity''} \<and>
      earnMultiplier ?r \<in> {''NaN'', ''Infinity'', ''-Infinity''}"
    by blast
  from g c1 c2 c3
  show "\<exists>r. getPoolsStats powf ''A'' zero_shares_entries = Inr r \<and>
          avgApy r = calculating \<and> weeklyBasedApr r = calculating \<and>
          baseApy r \<in> {''NaN'', ''Infinity'', ''-Infinity'', ''-100.000000''} \<and>
          dailyBasedApr r \<in> {''NaN'', ''Infinity'', ''-Infinity''} \<and>
          earnMultiplier r \<in> {''NaN'', ''Infinity'', ''-Infinity''}"
    by blast
qed

section \<open>No days elapsed (C2)\<close>

text \<open>
  C2, as amended. When the last snapshot is present, the amounts of the snapshots decode
  and \<open>daysElapsedSinceIndexed\<close> is zero (of either sign), the computation does not raise
  and \<open>baseApy\<close> is never the placeholder: the exponent \<open>365 / 0\<close> is an infinity and
  \<open>baseApy\<close> is \<open>Infinity\<close>, \<open>-100.000000\<close> or \<open>NaN\<close>. For the positive zero it is \<open>NaN\<close>
  when the ratio is not-a-number or converts to the double 1, \<open>Infinity\<close> when the ratio is
  infinite or its magnitude exceeds 1, and \<open>-100.000000\<close> otherwise.
\<close>

theorem baseApy_zero_days:
  assumes "calculateRatio powf (lastEntry e) = Inr (Some l)"
    and "calculateRatio powf (weeklyEntry e) = Inr wr"
    and "calculateRatio powf (yesterdayEntry e) = Inr yr"
    and "daysElapsedSinceIndexed e = Days 0 \<or> daysElapsedSinceIndexed e = NegZero"
  shows "\<exists>r. getPoolsStats powf a e = Inr r \<and>
           baseApy r \<in> {''Infinity'', ''-100.000000'', ''NaN''} \<and>
           baseApy r \<noteq> calculating \<and>
           (daysElapsedSinceIndexed e = Days 0 \<longrightarrow>
              baseApy r =
                (if isNaN l \<or> (isFinite l \<and> \<not> isZero l \<and> near_one (mag l)) then ''NaN''
                 else if \<not> isFinite l \<or> (\<not> isZero l \<and> 1 < mag l) then ''Infinity''
                 else ''-100.000000''))"
proof -
  let ?b = "baseApy_of powf l (daysElapsedSinceIndexed e)"
  have m: "?b \<in> {''Infinity'', ''-100.000000'', ''NaN''}"
    using assms(4) by (rule baseApy_of_zero_days)
  then have n: "?b \<noteq> calculating"
    using calculating_not_in by metis
  have z: "daysElapsedSinceIndexed e = Days 0 \<longrightarrow>
      ?b = (if isNaN l \<or> (isFinite l \<and> \<not> isZero l \<and> near_one (mag l)) then ''NaN''
                 else if \<not> isFinite l \<or> (\<not> isZero l \<and> 1 < mag l) then ''Infinity''
                 else ''-100.000000'')"
    using baseApy_of_Days_0 by simp
  show ?thesis
    unfolding getPoolsStats_ratios [OF assms(1-3)]
    using m n z by simp
qed

text \<open>
  The claim as stated fails: address \<open>B\<close> has one snapshot, of ratio 1.1, and its
  \<open>baseApy\<close> is \<open>Infinity\<close>.
\<close>

theorem single_snapshot_baseApy_Infinity:
  "\<forall>powf. getPoolsStats powf ''B'' (single_entries (snapshot ''B'' 0 ''1000000'' ''1100000'')) =
     Inr \<lparr> stats_address = ''B'', baseApy = ''Infinity'', avgApy = ''calculating..'',
           dailyBasedApr = ''calculating..'', weeklyBasedApr = ''calculating..'',
           earnMultiplier = ''0'' \<rparr>"
proof
  fix powf
  let ?e = "single_entries (snapshot ''B'' 0 ''1000000'' ''1100000'')"
  have l: "calculateRatio powf (lastEntry ?e) = Inr (Some (Fin False 11 (- 1)))"
    by (simp add: single_entries_def ratio_11)
  have w: "calculateRatio powf (weeklyEntry ?e) = Inr None"
    by (simp add: single_entries_def calculateRatio_None)
  have y: "calculateRatio powf (yesterdayEntry ?e) = Inr None"
    by (simp add: single_entries_def calculateRatio_None)
  show "getPoolsStats powf ''B'' ?e =
     Inr \<lparr> stats_address = ''B'', baseApy = ''Infinity'', avgApy = ''calculating..'',
           dailyBasedApr = ''calculating..'', weeklyBasedApr = ''calculating..'',
           earnMultiplier = ''0'' \<rparr>"
    unfolding getPoolsStats_ratios [OF l w y] days_single baseApy_of_Days_0
    by (simp add: near_one_11 calculating_def)
qed

theorem baseApy_zero_days_witness:
  "\<forall>powf. \<exists>r. getPoolsStats powf ''B'' (single_entries (snapshot ''B'' 0 ''1000000'' ''1100000'')) = Inr r \<and>
     baseApy r \<in> {''Infinity'', ''-100.000000'', ''NaN''} \<and> baseApy r \<noteq> calculating \<and> baseApy r = ''Infinity''"
proof
  fix powf
  let ?e = "single_entries (snapshot ''B'' 0 ''1000000'' ''1100000'')"
  have l: "calculateRatio powf (lastEntry ?e) = Inr (Some (Fin False 11 (- 1)))"
    by (simp add: single_entries_def ratio_11)
  have w: "calculateRatio powf (weeklyEntry ?e) = Inr None"
    by (simp add: single_entries_def calculateRatio_None)
  have y: "calculateRatio powf (yesterdayEntry ?e) = Inr None"
    by (simp add: single_entries_def calculateRatio_None)
  have d: "daysElapsedSinceIndexed ?e = Days 0 \<or> daysElapsedSinceIndexed ?e = NegZero"
    by (simp add: days_single)
  from baseApy_zero_days [OF l w y d, where a = "''B''"]
  show "\<exists>r. getPoolsStats powf ''B'' ?e = Inr r \<and>
     baseApy r \<in> {''Infinity'', ''-100.000000'', ''NaN''} \<and> baseApy r \<noteq> calculating \<and> baseApy r = ''Infinity''"
    by (auto simp add: days_single near_one_11)
qed

section \<open>The ratio (C5)\<close>

text \<open>
  The digit count brackets a number between two powers of ten; stripping trailing zeros
  keeps the value; the rounded coefficient is within one half of the scaled fraction.
\<close>

lemma ndigits_upper: "n < 10 ^ ndigits n"
proof (induction n rule: ndigits.induct)
  case (1 n)
  show ?case
  proof (cases "n < 10")
    case True
    then show ?thesis by (subst ndigits.simps) simp
  next
    case False
    with 1 have "n div 10 < 10 ^ ndigits (n div 10)" by simp
    then have "n < 10 * 10 ^ ndigits (n div 10)" by simp
    with False show ?thesis by (subst ndigits.simps) simp
  qed
qed

lemma ndigits_lower: "0 < n \<Longrightarrow> 10 ^ (ndigits n - 1) \<le> n"
proof (induction n rule: ndigits.induct)
  case (1 n)
  show ?case
  proof (cases "n < 10")
    case True
    with 1 show ?thesis by (subst ndigits.simps) simp
  next
    case False
    then have p: "0 < n div 10" by simp
    with 1 False have "10 ^ (ndigits (n div 10) - 1) \<le> n div 10" by simp
    then have "10 * 10 ^ (ndigits (n div 10) - 1) \<le> n" by simp
    moreover have "0 < ndigits (n div 10)" by (subst ndigits.simps) simp
    ultimately have "10 ^ ndigits (n div 10) \<le> n"
      by (cases "ndigits (n div 10)") simp_all
    with False show ?thesis by (subst ndigits.simps) simp
  qed
qed

lemma ndigits_pos: "0 < ndigits n"
  by (subst ndigits.simps) simp

lemma powi_split: "(10::rat) powi k = 10 ^ nat k / 10 ^ nat (- k)"
  by (cases "0 \<le> k") (simp_all add: power_int_def field_simps)

lemma strip_zeros_value:
  "strip_zeros c e = (c', e') \<Longrightarrow> (of_nat c' :: rat) * 10 powi e' = of_nat c * 10 powi e"
proof (induction c e rule: strip_zeros.induct)
  case (1 c e)
  show ?case
  proof (cases "c \<noteq> 0 \<and> c mod 10 = 0")
    case True
    have "strip_zeros c e = strip_zeros (c div 10) (e + 1)"
      using True by (subst strip_zeros.simps) simp
    with "1.prems" have "strip_zeros (c div 10) (e + 1) = (c', e')"
      by simp
    with True "1.IH" have "(of_nat c' :: rat) * 10 powi e' = of_nat (c div 10) * 10 powi (e + 1)"
      by simp
    also have "\<dots> = of_nat (c div 10) * 10 * 10 powi e"
      by (simp add: power_int_add)
    also have "of_nat (c div 10) * (10::rat) = of_nat (c div 10 * 10)"
      by simp
    also have "c div 10 * 10 = c"
      using True by auto
    finally show ?thesis .
  next
    case False
    have "strip_zeros c e = (c, e)"
      using False by (subst strip_zeros.simps) auto
    with "1.prems" have "c' = c" "e' = e"
      by simp_all
    then show ?thesis by simp
  qed
qed

lemma mkFin_value:
  assumes "mkFin s c e = Fin s' c' e'" and "c' \<noteq> 0"
  shows "s' = s \<and> mag (Fin s' c' e') = of_nat c * 10 powi e"
proof -
  from assms have c: "c \<noteq> 0" by (auto simp add: mkFin_def split: if_splits)
  obtain c1 e1 where st: "strip_zeros c e = (c1, e1)" by (cases "strip_zeros c e") auto
  from assms c st have "s' = s" "c' = c1" "e' = e1"
    by (auto simp add: mkFin_def Let_def split: if_splits)
  with strip_zeros_value [OF st] show ?thesis by (simp add: mag.simps)
qed

lemma powi_diff_nat: "(10::rat) powi (int a - int b) = 10 ^ a / 10 ^ b"
  by (simp add: power_int_diff)

lemma exponent_frac_lower:
  assumes "0 < n" and "0 < d"
  shows "(10::rat) powi (exponent_frac n d) \<le> of_nat n / of_nat d"
proof -
  define e0 where "e0 = int (ndigits n) - int (ndigits d)"
  show ?thesis
  proof (cases "d * 10 ^ nat e0 \<le> n * 10 ^ nat (- e0)")
    case True
    then have "(of_nat (d * 10 ^ nat e0) :: rat) \<le> of_nat (n * 10 ^ nat (- e0))"
      by (simp only: of_nat_le_iff)
    then have "(of_nat d :: rat) * 10 ^ nat e0 \<le> of_nat n * 10 ^ nat (- e0)"
      by simp
    then have "(10::rat) ^ nat e0 / 10 ^ nat (- e0) \<le> of_nat n / of_nat d"
      using assms by (simp add: field_simps)
    moreover have "exponent_frac n d = e0"
      using True by (simp add: exponent_frac_def e0_def Let_def)
    ultimately show ?thesis by (simp add: powi_split [of e0])
  next
    case False
    then have E: "exponent_frac n d = e0 - 1"
      by (simp add: exponent_frac_def e0_def Let_def)
    have "e0 - 1 = int (ndigits n - 1) - int (ndigits d)"
      using ndigits_pos [of n] by (simp add: e0_def)
    then have p: "(10::rat) powi (e0 - 1) = 10 ^ (ndigits n - 1) / 10 ^ ndigits d"
      by (simp only: powi_diff_nat)
    have a: "(10::rat) ^ (ndigits n - 1) \<le> of_nat n"
      using ndigits_lower [OF assms(1)] by (metis of_nat_le_iff of_nat_numeral of_nat_power)
    have b: "(of_nat d :: rat) \<le> 10 ^ ndigits d"
      using ndigits_upper [of d] by (metis less_imp_le of_nat_le_iff of_nat_numeral of_nat_power)
    have "(10::rat) ^ (ndigits n - 1) / 10 ^ ndigits d \<le> of_nat n / of_nat d"
      using a b assms by (intro frac_le) simp_all
    with E p show ?thesis by simp
  qed
qed

lemma round_half_up_error:
  assumes "0 < B"
  shows "\<bar>(of_nat ((2 * A + B) div (2 * B)) :: rat) - of_nat A / of_nat B\<bar> \<le> 1 / 2"
proof -
  define c where "c = (2 * A + B) div (2 * B)"
  define r where "r = (2 * A + B) mod (2 * B)"
  have "2 * A + B = c * (2 * B) + r"
    by (simp only: c_def r_def div_mult_mod_eq)
  then have "(of_nat (2 * A + B) :: rat) = of_nat (c * (2 * B) + r)"
    by simp
  then have eq: "2 * (of_nat A :: rat) + of_nat B = of_nat c * (2 * of_nat B) + of_nat r"
    by simp
  have "r < 2 * B" using assms by (simp add: r_def)
  then have "(of_nat r :: rat) < of_nat (2 * B)" by (simp only: of_nat_less_iff)
  then have r2: "(of_nat r :: rat) < 2 * of_nat B" by simp
  have r0: "(0::rat) \<le> of_nat r" by simp
  have B: "(0::rat) < of_nat B" using assms by simp
  have "(of_nat c :: rat) * (2 * of_nat B) - 2 * of_nat A = of_nat B - of_nat r"
    using eq by linarith
  moreover have "(of_nat c :: rat) - of_nat A / of_nat B =
      (of_nat c * (2 * of_nat B) - 2 * of_nat A) / (2 * of_nat B)"
    using B by (simp add: field_simps)
  ultimately have "(of_nat c :: rat) - of_nat A / of_nat B = (of_nat B - of_nat r) / (2 * of_nat B)"
    by simp
  moreover have "\<bar>((of_nat B :: rat) - of_nat r) / (2 * of_nat B)\<bar> \<le> 1 / 2"
    using r2 r0 B by (simp add: field_simps abs_le_iff)
  ultimately show ?thesis by (simp add: c_def)
qed

lemma round_frac_error:
  assumes "0 < n" and "0 < d"
    and "round_frac sd s n d e = Fin s' c' e'" and "c' \<noteq> 0"
  shows "s' = s \<and>
         \<bar>mag (Fin s' c' e') - of_nat n / of_nat d * 10 powi e\<bar>
           \<le> of_nat n / of_nat d * 10 powi e * 10 powi (1 - int sd) / 2"
proof -
  define E where "E = exponent_frac n d"
  define j where "j = int sd - 1 - E"
  define A where "A = n * 10 ^ nat j"
  define B where "B = d * 10 ^ nat (- j)"
  define c where "c = (2 * A + B) div (2 * B)"
  define q :: rat where "q = of_nat n / of_nat d"
  have B: "0 < B" using assms(2) by (simp add: B_def)
  have qpos: "0 < q" using assms(1,2) by (simp add: q_def)
  from assms(1,3) have "mkFin s c (e - j) = Fin s' c' e'"
    by (simp add: round_frac_def Let_def c_def A_def B_def j_def E_def mult.assoc)
  note v = mkFin_value [OF this assms(4)]
  have s: "s' = s" by (rule conjunct1 [OF v])
  have m: "mag (Fin s' c' e') = of_nat c * 10 powi (e - j)" by (rule conjunct2 [OF v])
  have AB: "(of_nat A :: rat) / of_nat B = q * 10 powi j"
    by (simp add: A_def B_def q_def powi_split [of j])
  have err: "\<bar>(of_nat c :: rat) - q * 10 powi j\<bar> \<le> 1 / 2"
    using round_half_up_error [OF B, of A] by (simp add: c_def AB)
  have pj: "(0::rat) < 10 powi (e - j)" by simp
  have split: "(10::rat) powi e = 10 powi j * 10 powi (e - j)"
    by (simp add: power_int_add [symmetric])
  have "of_nat c * 10 powi (e - j) - q * 10 powi e = (of_nat c - q * 10 powi j) * 10 powi (e - j)"
    unfolding split by (simp add: algebra_simps)
  then have "\<bar>of_nat c * 10 powi (e - j) - q * 10 powi e\<bar> =
      \<bar>(of_nat c :: rat) - q * 10 powi j\<bar> * \<bar>10 powi (e - j)\<bar>"
    by (simp only: abs_mult)
  also have "\<bar>(10::rat) powi (e - j)\<bar> = 10 powi (e - j)"
    using pj by simp
  finally have "\<bar>of_nat c * 10 powi (e - j) - q * 10 powi e\<bar> = \<bar>(of_nat c :: rat) - q * 10 powi j\<bar> * 10 powi (e - j)" .
  also have "\<dots> \<le> 1 / 2 * 10 powi (e - j)"
    using err pj by (intro mult_right_mono) simp_all
  finally have bound: "\<bar>of_nat c * 10 powi (e - j) - q * 10 powi e\<bar> \<le> 1 / 2 * 10 powi (e - j)" .
  have "e - j = e + E + (1 - int sd)" by (simp add: j_def)
  then have "(10::rat) powi (e - j) = 10 powi (e + E + (1 - int sd))"
    by (rule arg_cong)
  also have "\<dots> = 10 powi e * 10 powi E * 10 powi (1 - int sd)"
    by (simp only: power_int_add [of "10::rat", simplified])
  also have "\<dots> \<le> 10 powi e * q * 10 powi (1 - int sd)"
    using exponent_frac_lower [OF assms(1,2)]
    by (intro mult_right_mono mult_left_mono) (simp_all add: E_def q_def)
  finally have "(10::rat) powi (e - j) \<le> q * 10 powi e * 10 powi (1 - int sd)"
    by (simp add: mult.commute)
  with bound have "\<bar>of_nat c * 10 powi (e - j) - q * 10 powi e\<bar> \<le> q * 10 powi e * 10 powi (1 - int sd) / 2"
    by simp
  with s m show ?thesis by (simp add: q_def)
qed

lemma Decimal_div_error:
  assumes "cx \<noteq> 0" and "cy \<noteq> 0"
    and "Decimal_div (Fin sx cx ex) (Fin sy cy ey) = Fin s c e" and "c \<noteq> 0"
  shows "s = (sx \<noteq> sy) \<and>
         \<bar>mag (Fin s c e) - mag (Fin sx cx ex) / mag (Fin sy cy ey)\<bar>
           \<le> mag (Fin sx cx ex) / mag (Fin sy cy ey) / (2 * 10 ^ 19)"
proof -
  from assms(1-3) have r: "round_frac precision (sx \<noteq> sy) cx cy (ex - ey) = Fin s c e"
    by simp
  have x: "0 < cx" and y: "0 < cy" using assms(1,2) by simp_all
  have q: "mag (Fin sx cx ex) / mag (Fin sy cy ey) = of_nat cx / of_nat cy * 10 powi (ex - ey)"
    by (simp add: mag.simps power_int_diff)
  have p: "(10::rat) powi (1 - int precision) = 1 / 10 ^ 19"
    by (simp add: precision_def power_int_minus field_simps)
  from round_frac_error [OF x y r assms(4)] show ?thesis
    unfolding q p by (auto simp add: ac_simps)
qed

lemma half_up_exact:
  assumes "0 < B"
  shows "(2 * (X * B) + B) div (2 * B) = (X::nat)"
proof -
  have "2 * (X * B) + B = (2 * X + 1) * B" by (simp add: algebra_simps)
  then have "(2 * (X * B) + B) div (2 * B) = ((2 * X + 1) * B) div (2 * B)" by (rule arg_cong)
  also have "\<dots> = (2 * X + 1) div 2"
    using assms by (intro div_mult_mult2) simp
  also have "\<dots> = X" by simp
  finally show ?thesis .
qed

lemma round_frac_exact:
  assumes "0 < n" and "0 < d"
    and "round_frac sd s n d e = Fin s' c' e'" and "c' \<noteq> 0"
    and "(of_nat n :: rat) / of_nat d = of_nat m * 10 powi k" and "m < 10 ^ sd" and "0 < sd"
  shows "mag (Fin s' c' e') = of_nat n / of_nat d * 10 powi e"
proof -
  define E where "E = exponent_frac n d"
  define j where "j = int sd - 1 - E"
  define A where "A = n * 10 ^ nat j"
  define B where "B = d * 10 ^ nat (- j)"
  define c where "c = (2 * A + B) div (2 * B)"
  define q :: rat where "q = of_nat n / of_nat d"
  have B: "0 < B" using assms(2) by (simp add: B_def)
  from assms(1,3) have "mkFin s c (e - j) = Fin s' c' e'"
    by (simp add: round_frac_def Let_def c_def A_def B_def j_def E_def mult.assoc)
  note v = mkFin_value [OF this assms(4)]
  have m: "mag (Fin s' c' e') = of_nat c * 10 powi (e - j)" by (rule conjunct2 [OF v])
  have "(10::rat) powi E \<le> q"
    unfolding E_def q_def by (rule exponent_frac_lower [OF assms(1,2)])
  also have "q = of_nat m * 10 powi k" using assms(5) by (simp add: q_def)
  also have "(of_nat m :: rat) < 10 ^ sd"
    using assms(6) by (metis of_nat_less_iff of_nat_numeral of_nat_power)
  then have "(of_nat m :: rat) * 10 powi k < 10 ^ sd * 10 powi k"
    by (intro mult_strict_right_mono) simp_all
  also have "(10::rat) ^ sd * 10 powi k = 10 powi (int sd + k)"
    by (simp add: power_int_add)
  finally have "(10::rat) powi E < 10 powi (int sd + k)" .
  then have "E < int sd + k"
    by (rule contrapos_pp) (simp add: not_less power_int_increasing)
  then have jk: "0 \<le> j + k" by (simp add: j_def)
  define X where "X = m * 10 ^ nat (j + k)"
  have "(of_nat A :: rat) / of_nat B = q * 10 powi j"
    by (simp add: A_def B_def q_def powi_split [of j])
  also have "\<dots> = of_nat m * (10 powi k * 10 powi j)"
    using assms(5) by (simp add: q_def)
  also have "(10::rat) powi k * 10 powi j = 10 powi (j + k)"
    by (simp add: power_int_add)
  also have "(10::rat) powi (j + k) = 10 ^ nat (j + k)"
    using jk by (simp add: power_int_def)
  finally have "(of_nat A :: rat) / of_nat B = of_nat X"
    by (simp add: X_def)
  then have "(of_nat A :: rat) = of_nat (X * B)"
    using B by (simp add: field_simps)
  then have "A = X * B" by (simp only: of_nat_eq_iff)
  then have "c = X" using half_up_exact [OF B] by (simp add: c_def)
  have "of_nat c * (10::rat) powi (e - j) = of_nat m * 10 powi (j + k) * 10 powi (e - j)"
    using jk by (simp add: \<open>c = X\<close> X_def power_int_def)
  also have "\<dots> = of_nat m * (10 powi (j + k) * 10 powi (e - j))"
    by simp
  also have "(10::rat) powi (j + k) * 10 powi (e - j) = 10 powi (k + e)"
    by (simp add: power_int_add [symmetric])
  also have "of_nat m * (10::rat) powi (k + e) = q * 10 powi e"
    using assms(5) by (simp add: q_def power_int_add)
  finally show ?thesis using m by (simp add: q_def)
qed

lemma Decimal_div_exact:
  assumes "cx \<noteq> 0" and "cy \<noteq> 0"
    and "Decimal_div (Fin sx cx ex) (Fin sy cy ey) = Fin s c e" and "c \<noteq> 0"
    and "mag (Fin sx cx ex) / mag (Fin sy cy ey) = of_nat m * 10 powi k" and "m < 10 ^ 20"
  shows "mag (Fin s c e) = mag (Fin sx cx ex) / mag (Fin sy cy ey)"
proof -
  from assms(1-3) have r: "round_frac precision (sx \<noteq> sy) cx cy (ex - ey) = Fin s c e"
    by simp
  have x: "0 < cx" and y: "0 < cy" using assms(1,2) by simp_all
  have q: "mag (Fin sx cx ex) / mag (Fin sy cy ey) = of_nat cx / of_nat cy * 10 powi (ex - ey)"
    by (simp add: mag.simps power_int_diff)
  have "(10::rat) powi (ex - ey) * 10 powi (- (ex - ey)) = 1"
    by (simp add: power_int_add [symmetric])
  then have "(of_nat cx :: rat) / of_nat cy = of_nat cx / of_nat cy * (10 powi (ex - ey) * 10 powi (- (ex - ey)))"
    by simp
  also have "\<dots> = of_nat cx / of_nat cy * 10 powi (ex - ey) * 10 powi (- (ex - ey))"
    by (simp only: mult.assoc)
  also have "\<dots> = of_nat m * 10 powi k * 10 powi (- (ex - ey))"
    using assms(5) by (simp only: q)
  also have "\<dots> = of_nat m * (10 powi k * 10 powi (- (ex - ey)))"
    by (simp only: mult.assoc)
  also have "(10::rat) powi k * 10 powi (- (ex - ey)) = 10 powi (k + (- (ex - ey)))"
    by (simp only: power_int_add [of "10::rat", simplified])
  also have "k + (- (ex - ey)) = k - (ex - ey)"
    by simp
  finally have f: "(of_nat cx :: rat) / of_nat cy = of_nat m * 10 powi (k - (ex - ey))" .
  have m: "m < 10 ^ precision" using assms(6) by (simp add: precision_def)
  have p: "0 < precision" by (simp add: precision_def)
  from round_frac_exact [OF x y r assms(4) f m p] show ?thesis
    by (simp only: q)
qed

lemma scale_exact:
  assumes "Decimal_div (Fin s c e) (Fin False 1 6) = Fin s' c' e'" and "c' \<noteq> 0"
    and "c \<noteq> 0" and "c < 10 ^ 20"
  shows "s' = s \<and> mag (Fin s' c' e') = mag (Fin s c e) / 10 ^ 6"
proof -
  have one: "(1::nat) \<noteq> 0" by simp
  have m: "mag (Fin False 1 6) = 10 ^ 6" by (simp add: mag.simps)
  have q: "mag (Fin s c e) / mag (Fin False 1 6) = of_nat c * 10 powi (e - 6)"
    by (simp add: mag.simps power_int_diff)
  from Decimal_div_error [OF assms(3) one assms(1,2)] have "s' = s" by simp
  moreover from Decimal_div_exact [OF assms(3) one assms(1,2) q assms(4)]
  have "mag (Fin s' c' e') = mag (Fin s c e) / 10 ^ 6" by (simp only: m)
  ultimately show ?thesis by simp
qed

lemma div_Fin_cases:
  assumes "Decimal_div x y = Fin s c e" and "c \<noteq> 0"
  obtains sx cx ex sy cy ey where "x = Fin sx cx ex" and "y = Fin sy cy ey"
    and "cx \<noteq> 0" and "cy \<noteq> 0"
proof -
  from assms have "\<exists>sx cx ex sy cy ey. x = Fin sx cx ex \<and> y = Fin sy cy ey \<and> cx \<noteq> 0 \<and> cy \<noteq> 0"
    by (cases x; cases y) (auto split: if_splits)
  then show thesis using that by blast
qed

lemma calculateRatio_value:
  assumes u: "Decimal_new powf (currentUsdBalance p) = Inr (Fin su cu eu)"
    and t: "Decimal_new powf (totalShares p) = Inr (Fin st ct et)"
    and cu: "cu < 10 ^ 20" and ct: "ct < 10 ^ 20"
    and r: "calculateRatio powf (Some p) = Inr (Some (Fin s c e))" and c: "c \<noteq> 0"
  shows "s = (su \<noteq> st)"
    and "\<bar>mag (Fin s c e) - mag (Fin su cu eu) / mag (Fin st ct et)\<bar>
           \<le> mag (Fin su cu eu) / mag (Fin st ct et) / (2 * 10 ^ 19)"
    and "mag (Fin su cu eu) / mag (Fin st ct et) = of_nat m * 10 powi k \<Longrightarrow> m < 10 ^ 20 \<Longrightarrow>
           mag (Fin s c e) = mag (Fin su cu eu) / mag (Fin st ct et)"
proof -
  from r u t have d: "Decimal_div (Decimal_div (Fin su cu eu) USD_SCALE)
      (Decimal_div (Fin st ct et) SHARES_SCALE) = Fin s c e"
    by (simp add: calculateRatio_def)
  from d c obtain s1 c1 e1 s2 c2 e2
    where U: "Decimal_div (Fin su cu eu) USD_SCALE = Fin s1 c1 e1"
      and T: "Decimal_div (Fin st ct et) SHARES_SCALE = Fin s2 c2 e2"
      and c1: "c1 \<noteq> 0" and c2: "c2 \<noteq> 0"
    by (rule div_Fin_cases)
  from U c1 have cu0: "cu \<noteq> 0"
    by (auto simp add: USD_SCALE_def split: if_splits)
  from T c2 have ct0: "ct \<noteq> 0"
    by (auto simp add: SHARES_SCALE_def split: if_splits)
  note su = scale_exact [OF U [unfolded USD_SCALE_def] c1 cu0 cu]
  note st = scale_exact [OF T [unfolded SHARES_SCALE_def] c2 ct0 ct]
  have "mag (Fin s1 c1 e1) / mag (Fin s2 c2 e2) =
      (mag (Fin su cu eu) / 10 ^ 6) / (mag (Fin st ct et) / 10 ^ 6)"
    by (simp only: conjunct2 [OF su] conjunct2 [OF st])
  also have "\<dots> = mag (Fin su cu eu) / mag (Fin st ct et)"
    by simp
  finally have q: "mag (Fin s1 c1 e1) / mag (Fin s2 c2 e2) =
      mag (Fin su cu eu) / mag (Fin st ct et)" .
  from d have d': "Decimal_div (Fin s1 c1 e1) (Fin s2 c2 e2) = Fin s c e"
    by (simp only: U T)
  note err = Decimal_div_error [OF c1 c2 d' c]
  from conjunct1 [OF err] su st show "s = (su \<noteq> st)" by simp
  from conjunct2 [OF err] show "\<bar>mag (Fin s c e) - mag (Fin su cu eu) / mag (Fin st ct et)\<bar>
           \<le> mag (Fin su cu eu) / mag (Fin st ct et) / (2 * 10 ^ 19)"
    by (simp only: q)
  assume "mag (Fin su cu eu) / mag (Fin st ct et) = of_nat m * 10 powi k" and m: "m < 10 ^ 20"
  then have "mag (Fin s1 c1 e1) / mag (Fin s2 c2 e2) = of_nat m * 10 powi k"
    by (simp only: q)
  from Decimal_div_exact [OF c1 c2 d' c this m]
  show "mag (Fin s c e) = mag (Fin su cu eu) / mag (Fin st ct et)"
    by (simp only: q)
qed

text \<open>
  C5. \<open>calculateRatio\<close> of an absent snapshot is absent. Of a present snapshot it decodes
  the balance, then the shares (a raise of the constructor is the raise of
  \<open>calculateRatio\<close>), divides each by 1,000,000 and returns the quotient of the two, a
  decimal of the library, every division in the library's decimal arithmetic at 20
  significant digits. In value: when both decoded amounts have at most 20 significant
  digits and the ratio returned is finite and not zero, the two scalings are exact, the
  ratio has the sign of \<open>usdBalance / totalShares\<close>, differs from it by at most that
  quotient over \<open>2 * 10^19\<close>, and equals it whenever the quotient has at most 20
  significant digits.
\<close>

theorem calculateRatio_decimal:
  "calculateRatio powf None = Inr None \<and>
   (\<forall>p err. Decimal_new powf (currentUsdBalance p) = Inl err \<longrightarrow>
      calculateRatio powf (Some p) = Inl err) \<and>
   (\<forall>p u err. Decimal_new powf (currentUsdBalance p) = Inr u \<and>
        Decimal_new powf (totalShares p) = Inl err \<longrightarrow>
      calculateRatio powf (Some p) = Inl err) \<and>
   (\<forall>p u t. Decimal_new powf (currentUsdBalance p) = Inr u \<and>
        Decimal_new powf (totalShares p) = Inr t \<longrightarrow>
      calculateRatio powf (Some p) =
        Inr (Some (Decimal_div (Decimal_div u USD_SCALE) (Decimal_div t SHARES_SCALE)))) \<and>
   mag USD_SCALE = 1000000 \<and> mag SHARES_SCALE = 1000000 \<and>
   (\<forall>p su cu eu st ct et s c e.
      Decimal_new powf (currentUsdBalance p) = Inr (Fin su cu eu) \<and>
      Decimal_new powf (totalShares p) = Inr (Fin st ct et) \<and>
      cu < 10 ^ 20 \<and> ct < 10 ^ 20 \<and>
      calculateRatio powf (Some p) = Inr (Some (Fin s c e)) \<and> c \<noteq> 0 \<longrightarrow>
      s = (su \<noteq> st) \<and>
      \<bar>mag (Fin s c e) - mag (Fin su cu eu) / mag (Fin st ct et)\<bar>
        \<le> mag (Fin su cu eu) / mag (Fin st ct et) / (2 * 10 ^ 19) \<and>
      (\<forall>m k. mag (Fin su cu eu) / mag (Fin st ct et) = of_nat m * 10 powi k \<and> m < 10 ^ 20 \<longrightarrow>
         mag (Fin s c e) = mag (Fin su cu eu) / mag (Fin st ct et)))"
proof (intro conjI allI impI)
  show "calculateRatio powf None = Inr None" by (rule calculateRatio_None)
next
  fix p :: Pools and err
  assume "Decimal_new powf (currentUsdBalance p) = Inl err"
  then show "calculateRatio powf (Some p) = Inl err" by (simp add: calculateRatio_def)
next
  fix p :: Pools and u err
  assume "Decimal_new powf (currentUsdBalance p) = Inr u \<and> Decimal_new powf (totalShares p) = Inl err"
  then show "calculateRatio powf (Some p) = Inl err" by (simp add: calculateRatio_def)
next
  fix p :: Pools and u t
  assume "Decimal_new powf (currentUsdBalance p) = Inr u \<and> Decimal_new powf (totalShares p) = Inr t"
  then show "calculateRatio powf (Some p) =
        Inr (Some (Decimal_div (Decimal_div u USD_SCALE) (Decimal_div t SHARES_SCALE)))"
    by (simp add: calculateRatio_def)
next
  show "mag USD_SCALE = 1000000" by (simp add: USD_SCALE_def mag.simps)
next
  show "mag SHARES_SCALE = 1000000" by (simp add: SHARES_SCALE_def mag.simps)
next
  fix p :: Pools and su cu eu st ct et s c e
  assume h: "Decimal_new powf (currentUsdBalance p) = Inr (Fin su cu eu) \<and>
      Decimal_new powf (totalShares p) = Inr (Fin st ct et) \<and>
      cu < 10 ^ 20 \<and> ct < 10 ^ 20 \<and>
      calculateRatio powf (Some p) = Inr (Some (Fin s c e)) \<and> c \<noteq> 0"
  then have u: "Decimal_new powf (currentUsdBalance p) = Inr (Fin su cu eu)"
    and t: "Decimal_new powf (totalShares p) = Inr (Fin st ct et)"
    and cu: "cu < 10 ^ 20" and ct: "ct < 10 ^ 20"
    and r: "calculateRatio powf (Some p) = Inr (Some (Fin s c e))" and c: "c \<noteq> 0"
    by blast+
  show "s = (su \<noteq> st)"
    by (rule calculateRatio_value(1) [OF u t cu ct r c])
  show "\<bar>mag (Fin s c e) - mag (Fin su cu eu) / mag (Fin st ct et)\<bar>
        \<le> mag (Fin su cu eu) / mag (Fin st ct et) / (2 * 10 ^ 19)"
    by (rule calculateRatio_value(2) [OF u t cu ct r c])
  fix m k
  assume "mag (Fin su cu eu) / mag (Fin st ct et) = of_nat m * 10 powi k \<and> m < 10 ^ 20"
  then show "mag (Fin s c e) = mag (Fin su cu eu) / mag (Fin st ct et)"
    using calculateRatio_value(3) [OF u t cu ct r c] by blast
qed

theorem calculateRatio_decimal_witness:
  "\<forall>powf.
     calculateRatio powf (Some (snapshot ''A'' 0 ''3000000'' ''1000000'')) =
       Inr (Some (Fin False 33333333333333333333 (- 20))) \<and>
     \<bar>mag (Fin False 33333333333333333333 (- 20)) - mag (Fin False 1 6) / mag (Fin False 3 6)\<bar>
       \<le> mag (Fin False 1 6) / mag (Fin False 3 6) / (2 * 10 ^ 19) \<and>
     calculateRatio powf (Some (snapshot ''A'' 0 ''1000000'' ''1100000'')) =
       Inr (Some (Fin False 11 (- 1))) \<and>
     mag (Fin False 11 (- 1)) = mag (Fin False 11 5) / mag (Fin False 1 6)"
proof
  fix powf
  let ?p = "snapshot ''A'' 0 ''3000000'' ''1000000''"
  let ?q = "snapshot ''A'' 0 ''1000000'' ''1100000''"
  note t = calculateRatio_decimal [of powf]
  have p: "Decimal_new powf (currentUsdBalance ?p) = Inr (Fin False 1 6) \<and>
      Decimal_new powf (totalShares ?p) = Inr (Fin False 3 6) \<and>
      (1::nat) < 10 ^ 20 \<and> (3::nat) < 10 ^ 20 \<and>
      calculateRatio powf (Some ?p) = Inr (Some (Fin False 33333333333333333333 (- 20))) \<and>
      (33333333333333333333::nat) \<noteq> 0"
    by (simp add: snapshot_def new_1000000 new_3000000 ratio_third [unfolded snapshot_def])
  have q: "Decimal_new powf (currentUsdBalance ?q) = Inr (Fin False 11 5) \<and>
      Decimal_new powf (totalShares ?q) = Inr (Fin False 1 6) \<and>
      (11::nat) < 10 ^ 20 \<and> (1::nat) < 10 ^ 20 \<and>
      calculateRatio powf (Some ?q) = Inr (Some (Fin False 11 (- 1))) \<and>
      (11::nat) \<noteq> 0"
    by (simp add: snapshot_def new_1000000 new_1100000 ratio_11 [unfolded snapshot_def])
  have m: "mag (Fin False 11 5) / mag (Fin False 1 6) = of_nat 11 * 10 powi (- 1) \<and>
      (11::nat) < 10 ^ 20"
    by (simp add: mag.simps power_int_minus)
  from t p have b: "\<bar>mag (Fin False 33333333333333333333 (- 20)) -
        mag (Fin False 1 6) / mag (Fin False 3 6)\<bar>
       \<le> mag (Fin False 1 6) / mag (Fin False 3 6) / (2 * 10 ^ 19)"
    by blast
  from t q m have x: "mag (Fin False 11 (- 1)) = mag (Fin False 11 5) / mag (Fin False 1 6)"
    by blast
  from p q b x
  show "calculateRatio powf (Some ?p) = Inr (Some (Fin False 33333333333333333333 (- 20))) \<and>
     \<bar>mag (Fin False 33333333333333333333 (- 20)) - mag (Fin False 1 6) / mag (Fin False 3 6)\<bar>
       \<le> mag (Fin False 1 6) / mag (Fin False 3 6) / (2 * 10 ^ 19) \<and>
     calculateRatio powf (Some ?q) = Inr (Some (Fin False 11 (- 1))) \<and>
     mag (Fin False 11 (- 1)) = mag (Fin False 11 5) / mag (Fin False 1 6)"
    by blast
qed

section \<open>Six decimal places and the scenarios\<close>

lemma is_digit_digit_char: "is_digit (digit_char n)"
proof -
  have "n mod 10 < length ''0123456789''" by simp
  then have "''0123456789'' ! (n mod 10) \<in> set ''0123456789''"
    by (rule nth_mem)
  then show ?thesis by (simp only: is_digit_def digit_char_def)
qed

lemma nat_str_digits: "list_all is_digit (nat_str n)"
  by (induction n rule: nat_str.induct) (subst nat_str.simps, simp add: is_digit_digit_char)

lemma nat_str_not_Nil: "nat_str n \<noteq> []"
  by (subst nat_str.simps) simp







lemma pow_2_one: "Decimal_pow powf (Fin False 2 0) (Quot 365 365) = Fin False 2 0"
  by (simp add: mag.simps finalise_def arith_eval)

lemma pct_2: "Decimal_mul (Decimal_sub (Fin False 2 0) dec_1) dec_100 = Fin False 1 2"
  by (simp add: dec_1_def dec_100_def arith_eval)

lemma fixed_100: "toFixed6 (Fin False 1 2) = ''100.000000''"
  apply (simp add: toFixed6_def round_dp6_def with_sign_def Let_def)
  apply (simp add: str_eval)
  done

lemma year_fraction_365: "year_fraction (Days 365) = Quot 365 365"
  by (simp add: DAYS_IN_YEAR_def)


lemma baseApy_2_365: "baseApy_of powf (Fin False 2 0) (Days 365) = ''100.000000''"
  unfolding baseApy_of_def year_fraction_365
  by (simp only: pow_2_one pct_2 fixed_100)

lemma daily_2_199_value:
  "Decimal_mul (Decimal_mul (Decimal_sub (Decimal_div (Fin False 2 0) (Fin False 199 (- 2))) dec_1) dec_365) dec_100
     = Fin False 18341708542713567775 (- 17)"
  by (simp add: dec_1_def dec_100_def dec_365_def arith_eval)

lemma fixed_183: "toFixed6 (Fin False 18341708542713567775 (- 17)) = ''183.417085''"
  apply (simp add: toFixed6_def round_dp6_def with_sign_def Let_def)
  apply (simp add: str_eval)
  done

lemma dailyApr_2_199: "dailyApr_of (Fin False 2 0) (Fin False 199 (- 2)) = ''183.417085''"
  unfolding dailyApr_of_def by (simp only: daily_2_199_value fixed_183)

lemma sub_2_199: "Decimal_sub (Fin False 2 0) (Fin False 199 (- 2)) = Fin False 1 (- 2)"
  by (simp add: arith_eval)

lemma toString_001: "Decimal_toString (Fin False 1 (- 2)) = ''0.01''"
  by (simp add: Decimal_toString_def finiteToString_def strip_zeros.simps toExpNeg_def
      toExpPos_def with_sign_def Let_def str_eval)

lemma earn_2_199: "earnMultiplier_of (Fin False 2 0) (Fin False 199 (- 2)) = ''0.01''"
  unfolding earnMultiplier_of_def by (simp only: sub_2_199 toString_001)


lemma scenario_C_days: "daysElapsedSinceIndexed scenario_C = Days 365"
  by (simp add: daysElapsedSinceIndexed_def scenario_C_def snapshot_def ceil_days_def msPerDay_def)


lemma scenario_C_ratios:
  "calculateRatio powf (lastEntry scenario_C) = Inr (Some (Fin False 2 0))"
  "calculateRatio powf (weeklyEntry scenario_C) = Inr None"
  "calculateRatio powf (yesterdayEntry scenario_C) = Inr (Some (Fin False 199 (- 2)))"
  by (simp_all add: scenario_C_def ratio_2 ratio_199 calculateRatio_None)


lemma scenario_C_stats:
  "getPoolsStats powf ''C'' scenario_C =
     Inr \<lparr> stats_address = ''C'', baseApy = ''100.000000'', avgApy = ''calculating..'',
           dailyBasedApr = ''183.417085'', weeklyBasedApr = ''calculating..'',
           earnMultiplier = ''0.01'' \<rparr>"
  unfolding getPoolsStats_ratios [OF scenario_C_ratios] scenario_C_days
  by (simp add: baseApy_2_365 dailyApr_2_199 earn_2_199 calculating_def)

section \<open>The base APY (C4)\<close>



section \<open>The earn multiplier (C6, C10)\<close>

lemma val_signed_coeff:
  assumes "e \<le> ex"
  shows "val (Fin s c ex) = of_int (signed_coeff s c ex e) * 10 powi e"
proof -
  have "ex = (ex - e) + e" by simp
  then have "(10::rat) powi ex = 10 powi (ex - e) * 10 powi e"
    by (metis power_int_add zero_neq_numeral)
  also have "(10::rat) powi (ex - e) = 10 ^ nat (ex - e)"
    using assms by (simp add: power_int_def)
  finally have p: "(10::rat) powi ex = 10 ^ nat (ex - e) * 10 powi e" .
  show ?thesis
    by (simp add: val.simps signed_coeff_def p)
qed

lemma pow10_int_neq_0: "(10::rat) powi e \<noteq> 0"
  by simp

lemma sub_equal_values:
  assumes "val (Fin sx cx ex) = val (Fin sy cy ey)"
  shows "\<exists>s. Decimal_sub (Fin sx cx ex) (Fin sy cy ey) = Fin s 0 0"
proof -
  let ?e = "min ex ey"
  have "of_int (signed_coeff sx cx ex ?e) * (10::rat) powi ?e =
        of_int (signed_coeff sy cy ey ?e) * 10 powi ?e"
    using assms val_signed_coeff [of ?e ex sx cx] val_signed_coeff [of ?e ey sy cy] by simp
  then have "(of_int (signed_coeff sx cx ex ?e) :: rat) = of_int (signed_coeff sy cy ey ?e)"
    using pow10_int_neq_0 by simp
  then have "signed_coeff sx cx ex ?e = signed_coeff sy cy ey ?e"
    by simp
  then show ?thesis by (simp add: Let_def)
qed

lemma toString_zero: "Decimal_toString (Fin s 0 0) = ''0''"
  by (simp add: Decimal_toString_def with_sign_def finiteToString_def Let_def split_beta)

lemma earnMultiplier_equal:
  assumes "isFinite l" and "isFinite y" and "val l = val y"
  shows "earnMultiplier_of l y = ''0''"
proof -
  from assms(1) obtain sx cx ex where l: "l = Fin sx cx ex" by (cases l) auto
  from assms(2) obtain sy cy ey where y: "y = Fin sy cy ey" by (cases y) auto
  from assms(3) obtain s where "Decimal_sub l y = Fin s 0 0"
    unfolding l y using sub_equal_values by blast
  then show ?thesis by (simp add: earnMultiplier_of_def toString_zero)
qed


lemma sub_small: "Decimal_sub (Fin False 10000001 (- 7)) (Fin False 1 0) = Fin False 1 (- 7)"
  by (simp add: arith_eval)

lemma toString_1em7: "Decimal_toString (Fin False 1 (- 7)) = ''1e-7''"
  by (simp add: Decimal_toString_def finiteToString_def strip_zeros.simps toExpNeg_def
      toExpPos_def with_sign_def Let_def str_eval)

lemma earn_small: "earnMultiplier_of (Fin False 10000001 (- 7)) (Fin False 1 0) = ''1e-7''"
  unfolding earnMultiplier_of_def by (simp only: sub_small toString_1em7)

text \<open>
  The string of \<open>toString\<close> is exact: the constructor reads it back as the value it was
  made from (a negative zero excepted, whose string is \<open>0\<close>). The difference itself is
  exact whenever it has at most 20 significant digits.
\<close>

lemma not_digit_chars:
  "\<not> is_digit (CHR ''e'')" "\<not> is_digit (CHR ''.'')" "\<not> is_digit (CHR ''-'')"
  "\<not> is_digit (CHR ''+'')" "is_digit (CHR ''0'')"
  by (simp_all add: is_digit_def)

lemma digit_val_digit_char: "digit_val (digit_char n) = n mod 10"
proof -
  have "n mod 10 < 10" by simp
  then have "n mod 10 = 0 \<or> n mod 10 = 1 \<or> n mod 10 = 2 \<or> n mod 10 = 3 \<or> n mod 10 = 4 \<or>
      n mod 10 = 5 \<or> n mod 10 = 6 \<or> n mod 10 = 7 \<or> n mod 10 = 8 \<or> n mod 10 = 9"
    by presburger
  then have "n mod 10 \<in> {0, 1, 2, 3, 4, 5, 6, 7, 8, 9}" by blast
  then show ?thesis
    unfolding digit_val_def digit_char_def by (elim insertE emptyE) simp_all
qed

lemma digits_val_snoc: "digits_val (ds @ [c]) = 10 * digits_val ds + digit_val c"
  by (simp add: digits_val_def)

lemma digits_val_nat_str: "digits_val (nat_str n) = n"
proof (induction n rule: nat_str.induct)
  case (1 n)
  show ?case
  proof (cases "n < 10")
    case True
    then show ?thesis
      by (subst nat_str.simps) (simp add: digits_val_def digit_val_digit_char)
  next
    case False
    with 1 have "digits_val (nat_str (n div 10)) = n div 10" by simp
    with False show ?thesis
      by (subst nat_str.simps) (simp add: digits_val_snoc digit_val_digit_char)
  qed
qed

lemma digits_val_append:
  "digits_val (xs @ ys) = digits_val xs * 10 ^ length ys + digits_val ys"
proof (induction ys rule: rev_induct)
  case Nil
  show ?case by (simp add: digits_val_def)
next
  case (snoc y ys)
  have "digits_val (xs @ ys @ [y]) = 10 * digits_val (xs @ ys) + digit_val y"
    using digits_val_snoc [of "xs @ ys" y] by simp
  also have "\<dots> = 10 * (digits_val xs * 10 ^ length ys + digits_val ys) + digit_val y"
    by (simp only: snoc.IH)
  also have "\<dots> = digits_val xs * 10 ^ length (ys @ [y]) + digits_val (ys @ [y])"
    by (simp add: digits_val_snoc algebra_simps)
  finally show ?case .
qed

lemma digits_val_zeros: "digits_val (replicate k (CHR ''0'')) = 0"
proof (induction k)
  case 0
  show ?case by (simp add: digits_val_def)
next
  case (Suc k)
  have "replicate (Suc k) (CHR ''0'') = replicate k (CHR ''0'') @ [CHR ''0'']"
    by (simp add: replicate_append_same)
  then have "digits_val (replicate (Suc k) (CHR ''0'')) =
      10 * digits_val (replicate k (CHR ''0'')) + digit_val (CHR ''0'')"
    by (simp only: digits_val_snoc)
  with Suc show ?case by (simp add: digit_val_def)
qed

lemma span_digits:
  "list_all is_digit xs \<Longrightarrow> \<not> is_digit y \<Longrightarrow>
     takeWhile is_digit (xs @ y # ys) = xs \<and> dropWhile is_digit (xs @ y # ys) = y # ys"
  by (induction xs) simp_all

lemma span_digits_all:
  "list_all is_digit xs \<Longrightarrow> takeWhile is_digit xs = xs \<and> dropWhile is_digit xs = []"
  by (induction xs) simp_all

lemma span_digits_rest:
  assumes "list_all is_digit xs" and "r = [] \<or> (\<exists>t. r = CHR ''e'' # t)"
  shows "takeWhile is_digit (xs @ r) = xs \<and> dropWhile is_digit (xs @ r) = r"
proof (cases r)
  case Nil
  with span_digits_all [OF assms(1)] show ?thesis by simp
next
  case (Cons a t)
  with assms(2) have "r = CHR ''e'' # t" by simp
  with span_digits [OF assms(1) not_digit_chars(1), of t] show ?thesis by simp
qed

lemma parseDecimal_integer:
  assumes "list_all is_digit ip" and "ip \<noteq> []" and "r = [] \<or> (\<exists>t. r = CHR ''e'' # t)"
    and "parse_exponent r = Some x"
  shows "parseDecimal s (ip @ r) = Some (mkFin s (digits_val ip) x)"
proof -
  note sp = span_digits_rest [OF assms(1,3)]
  have t: "takeWhile is_digit (ip @ r) = ip" by (rule conjunct1 [OF sp])
  have d: "dropWhile is_digit (ip @ r) = r" by (rule conjunct2 [OF sp])
  have c: "(case r of [] \<Rightarrow> ([], r) | c # t \<Rightarrow>
             if c = CHR ''.'' then (takeWhile is_digit t, dropWhile is_digit t) else ([], r)) = ([], r)"
    using assms(3) by auto
  show ?thesis
    using assms(2,4) by (simp add: parseDecimal_def Let_def t d c)
qed

lemma parseDecimal_fraction:
  assumes "list_all is_digit ip" and "ip \<noteq> []" and "list_all is_digit fp"
    and "r = [] \<or> (\<exists>t. r = CHR ''e'' # t)" and "parse_exponent r = Some x"
  shows "parseDecimal s (ip @ CHR ''.'' # fp @ r) =
           Some (mkFin s (digits_val (ip @ fp)) (x - int (length fp)))"
proof -
  note sp = span_digits [OF assms(1) not_digit_chars(2), of "fp @ r"]
  have t: "takeWhile is_digit (ip @ CHR ''.'' # fp @ r) = ip" by (rule conjunct1 [OF sp])
  have d: "dropWhile is_digit (ip @ CHR ''.'' # fp @ r) = CHR ''.'' # fp @ r"
    by (rule conjunct2 [OF sp])
  note sq = span_digits_rest [OF assms(3,4)]
  have t': "takeWhile is_digit (fp @ r) = fp" by (rule conjunct1 [OF sq])
  have d': "dropWhile is_digit (fp @ r) = r" by (rule conjunct2 [OF sq])
  show ?thesis
    using assms(2,5) by (simp add: parseDecimal_def Let_def t d t' d')
qed

lemma parse_exponent_Nil: "parse_exponent [] = Some 0"
  by (simp add: parse_exponent_def)

lemma parse_exponent_neg: "parse_exponent (''e-'' @ nat_str k) = Some (- int k)"
  by (simp add: parse_exponent_def nat_str_not_Nil nat_str_digits digits_val_nat_str)

lemma parse_exponent_pos: "parse_exponent (''e+'' @ nat_str k) = Some (int k)"
  by (simp add: parse_exponent_def nat_str_not_Nil nat_str_digits digits_val_nat_str)

lemma strip_zeros_normal: "c mod 10 \<noteq> 0 \<Longrightarrow> strip_zeros c e = (c, e)"
  by (subst strip_zeros.simps) simp

lemma strip_zeros_pow10: "c \<noteq> 0 \<Longrightarrow> strip_zeros (c * 10 ^ k) e = strip_zeros c (e + int k)"
proof (induction k arbitrary: e)
  case 0
  show ?case by simp
next
  case (Suc k)
  have "strip_zeros (c * 10 ^ Suc k) e = strip_zeros (c * 10 ^ Suc k div 10) (e + 1)"
    using Suc.prems by (subst strip_zeros.simps) simp
  also have "c * 10 ^ Suc k div 10 = c * 10 ^ k" by simp
  also have "strip_zeros (c * 10 ^ k) (e + 1) = strip_zeros c (e + 1 + int k)"
    using Suc.prems by (rule Suc.IH)
  finally show ?case by (simp add: add.commute add.left_commute)
qed

lemma mkFin_normal:
  assumes "normal (Fin s c e)" and "c \<noteq> 0"
  shows "mkFin s (c * 10 ^ k) (e - int k) = Fin s c e"
proof -
  from assms have m: "c mod 10 \<noteq> 0" and lo: "minE \<le> e + int (ndigits c) - 1"
    and hi: "e + int (ndigits c) - 1 \<le> maxE"
    by (simp_all add: normal_def)
  have "strip_zeros (c * 10 ^ k) (e - int k) = (c, e)"
    using strip_zeros_pow10 [OF assms(2), of k "e - int k"] strip_zeros_normal [OF m, of e]
    by simp
  then show ?thesis
    using assms(2) lo hi by (simp add: mkFin_def)
qed

lemma mkFin_normal_0: "normal (Fin s c e) \<Longrightarrow> c \<noteq> 0 \<Longrightarrow> mkFin s c e = Fin s c e"
  using mkFin_normal [of s c e 0] by simp

lemma list_all_tl: "list_all P xs \<Longrightarrow> list_all P (tl xs)"
  by (cases xs) simp_all

lemma list_all_take: "list_all P xs \<Longrightarrow> list_all P (take m xs)"
  by (auto simp add: list_all_iff dest: in_set_takeD)

lemma list_all_drop: "list_all P xs \<Longrightarrow> list_all P (drop m xs)"
  by (auto simp add: list_all_iff dest: in_set_dropD)

lemma parse_exponent_signed:
  "parse_exponent ((if E < 0 then ''e-'' else ''e+'') @ nat_str (nat \<bar>E\<bar>)) = Some E"
proof (cases "E < 0")
  case True
  then show ?thesis
    using parse_exponent_neg [of "nat \<bar>E\<bar>"] by simp
next
  case False
  then show ?thesis
    using parse_exponent_pos [of "nat \<bar>E\<bar>"] by simp
qed

lemma finiteToString_parse:
  assumes n: "normal (Fin s c e)" and c: "c \<noteq> 0"
  shows "parseDecimal s (finiteToString c e) = Some (Fin s c e) \<and>
         (\<exists>d t. finiteToString c e = d # t \<and> is_digit d)"
proof -
  define ds where "ds = nat_str c"
  define len where "len = int (length ds)"
  define E where "E = e + len - 1"
  have dsne: "ds \<noteq> []" by (simp add: ds_def nat_str_not_Nil)
  have dsd: "list_all is_digit ds" by (simp add: ds_def nat_str_digits)
  have dv: "digits_val ds = c" by (simp add: ds_def digits_val_nat_str)
  from dsne obtain d0 rest where ds: "ds = d0 # rest" by (cases ds) auto
  with dsd have d0: "is_digit d0" by simp
  have len1: "1 \<le> len" using dsne by (cases ds) (simp_all add: len_def)
  from n c have m: "c mod 10 \<noteq> 0" by (simp add: normal_def)
  have str: "finiteToString c e =
     (if E \<le> toExpNeg \<or> toExpPos \<le> E then
        (if 1 < len then hd ds # ''.'' @ tl ds else ds) @
        (if E < 0 then ''e-'' else ''e+'') @ nat_str (nat \<bar>E\<bar>)
      else if E < 0 then ''0.'' @ replicate (nat (- E - 1)) (CHR ''0'') @ ds
      else if len \<le> E + 1 then ds @ replicate (nat (E + 1 - len)) (CHR ''0'')
      else take (nat (E + 1)) ds @ ''.'' @ drop (nat (E + 1)) ds)"
    using c by (simp add: finiteToString_def strip_zeros_normal [OF m] Let_def ds_def len_def E_def)
  define r where "r = (if E < 0 then ''e-'' else ''e+'') @ nat_str (nat \<bar>E\<bar>)"
  have r: "r = [] \<or> (\<exists>t. r = CHR ''e'' # t)" by (simp add: r_def)
  have pr: "parse_exponent r = Some E" unfolding r_def by (rule parse_exponent_signed)
  have nil: "([]::string) = [] \<or> (\<exists>t. ([]::string) = CHR ''e'' # t)" by simp
  consider (A1) "E \<le> toExpNeg \<or> toExpPos \<le> E" "\<not> 1 < len"
    | (A2) "E \<le> toExpNeg \<or> toExpPos \<le> E" "1 < len"
    | (B) "\<not> (E \<le> toExpNeg \<or> toExpPos \<le> E)" "E < 0"
    | (C) "\<not> (E \<le> toExpNeg \<or> toExpPos \<le> E)" "\<not> E < 0" "len \<le> E + 1"
    | (D) "\<not> (E \<le> toExpNeg \<or> toExpPos \<le> E)" "\<not> E < 0" "\<not> len \<le> E + 1"
    by blast
  then show ?thesis
  proof cases
    case A1
    then have s1: "finiteToString c e = ds @ r" by (simp add: str r_def)
    from A1 len1 have "len = 1" by simp
    then have e: "e = E" by (simp add: E_def)
    have "parseDecimal s (ds @ r) = Some (mkFin s (digits_val ds) E)"
      by (rule parseDecimal_integer [OF dsd dsne r pr])
    also have "mkFin s (digits_val ds) E = Fin s c e"
      unfolding dv e [symmetric] by (rule mkFin_normal_0 [OF n c])
    finally show ?thesis using s1 ds d0 by simp
  next
    case A2
    then have s1: "finiteToString c e = [hd ds] @ CHR ''.'' # tl ds @ r" by (simp add: str r_def)
    have i: "list_all is_digit [hd ds]" using ds d0 by simp
    have "parseDecimal s ([hd ds] @ CHR ''.'' # tl ds @ r) =
        Some (mkFin s (digits_val ([hd ds] @ tl ds)) (E - int (length (tl ds))))"
      by (rule parseDecimal_fraction [OF i _ list_all_tl [OF dsd] r pr]) simp
    also have "[hd ds] @ tl ds = ds" using dsne by simp
    also have "E - int (length (tl ds)) = e" using ds by (simp add: E_def len_def)
    also have "mkFin s (digits_val ds) e = Fin s c e"
      unfolding dv by (rule mkFin_normal_0 [OF n c])
    finally show ?thesis using s1 ds d0 by simp
  next
    case B
    define z where "z = replicate (nat (- E - 1)) (CHR ''0'')"
    from B have s1: "finiteToString c e = ''0'' @ CHR ''.'' # (z @ ds) @ []"
      by (simp add: str z_def)
    have i: "list_all is_digit ''0''" by (simp add: not_digit_chars)
    have zd: "list_all is_digit z"
      by (simp add: z_def list_all_iff not_digit_chars)
    have f: "list_all is_digit (z @ ds)" using zd dsd by simp
    have "parseDecimal s (''0'' @ CHR ''.'' # (z @ ds) @ []) =
        Some (mkFin s (digits_val (''0'' @ (z @ ds))) (0 - int (length (z @ ds))))"
      by (rule parseDecimal_fraction [OF i _ f nil parse_exponent_Nil]) simp
    also have "digits_val (''0'' @ (z @ ds)) = c"
    proof -
      have z0: "digits_val ''0'' = 0" by (simp add: digits_val_def digit_val_def)
      have zz: "digits_val z = 0" unfolding z_def by (rule digits_val_zeros)
      have a: "digits_val (''0'' @ (z @ ds)) =
          digits_val ''0'' * 10 ^ length (z @ ds) + digits_val (z @ ds)"
        by (rule digits_val_append)
      have b: "digits_val (z @ ds) = digits_val z * 10 ^ length ds + digits_val ds"
        by (rule digits_val_append)
      show ?thesis unfolding a b z0 zz dv by simp
    qed
    also have "0 - int (length (z @ ds)) = e"
      using B by (simp add: z_def E_def len_def)
    also have "mkFin s c e = Fin s c e" by (rule mkFin_normal_0 [OF n c])
    finally show ?thesis using s1 by (simp add: not_digit_chars)
  next
    case C
    define k where "k = nat (E + 1 - len)"
    define z where "z = replicate k (CHR ''0'')"
    from C have s1: "finiteToString c e = (ds @ z) @ []"
      by (simp add: str z_def k_def)
    have zd: "list_all is_digit z"
      by (simp add: z_def list_all_iff not_digit_chars)
    have f: "list_all is_digit (ds @ z)" using zd dsd by simp
    have ne: "ds @ z \<noteq> []" using dsne by simp
    have e: "e = int k" using C by (simp add: k_def E_def)
    have "parseDecimal s ((ds @ z) @ []) = Some (mkFin s (digits_val (ds @ z)) 0)"
      by (rule parseDecimal_integer [OF f ne nil parse_exponent_Nil])
    also have "digits_val (ds @ z) = c * 10 ^ k"
      by (simp add: digits_val_append z_def digits_val_zeros dv)
    also have "mkFin s (c * 10 ^ k) 0 = Fin s c e"
      using mkFin_normal [OF n c, of k] by (simp add: e)
    finally show ?thesis using s1 ds d0 by simp
  next
    case D
    define m where "m = nat (E + 1)"
    from D have mpos: "0 < m" and mlt: "m < length ds"
      by (simp_all add: m_def len_def)
    from D have s1: "finiteToString c e = take m ds @ CHR ''.'' # drop m ds @ []"
      by (simp add: str m_def)
    have ne: "take m ds \<noteq> []" using mpos dsne by simp
    have "parseDecimal s (take m ds @ CHR ''.'' # drop m ds @ []) =
        Some (mkFin s (digits_val (take m ds @ drop m ds)) (0 - int (length (drop m ds))))"
      by (rule parseDecimal_fraction [OF list_all_take [OF dsd] ne list_all_drop [OF dsd] nil
            parse_exponent_Nil])
    also have "take m ds @ drop m ds = ds" by simp
    also have "0 - int (length (drop m ds)) = e"
      using D mlt by (simp add: m_def E_def len_def)
    also have "mkFin s (digits_val ds) e = Fin s c e"
      unfolding dv by (rule mkFin_normal_0 [OF n c])
    finally have p: "parseDecimal s (take m ds @ CHR ''.'' # drop m ds @ []) = Some (Fin s c e)" .
    have "take m ds = d0 # take (m - 1) rest"
      using mpos ds by (cases m) simp_all
    with p s1 d0 show ?thesis by simp
  qed
qed

lemma strip_zeros_result:
  "c \<noteq> 0 \<Longrightarrow> strip_zeros c e = (c', e') \<Longrightarrow> c' \<noteq> 0 \<and> c' mod 10 \<noteq> 0"
proof (induction c e rule: strip_zeros.induct)
  case (1 c e)
  show ?case
  proof (cases "c mod 10 = 0")
    case True
    with "1.prems"(1) have s: "strip_zeros c e = strip_zeros (c div 10) (e + 1)"
      by (subst strip_zeros.simps) simp
    from True "1.prems"(1) have "c div 10 \<noteq> 0" by auto
    with "1.IH" True "1.prems" s show ?thesis by simp
  next
    case False
    then have "strip_zeros c e = (c, e)" by (rule strip_zeros_normal)
    with "1.prems" False show ?thesis by simp
  qed
qed

lemma normal_mkFin: "normal (mkFin s c e)"
proof (cases "c = 0")
  case True
  then show ?thesis by (simp add: mkFin_def normal_def)
next
  case False
  obtain c' e' where st: "strip_zeros c e = (c', e')" by (cases "strip_zeros c e") auto
  from strip_zeros_result [OF False st] have "c' \<noteq> 0" "c' mod 10 \<noteq> 0" by simp_all
  with False st show ?thesis by (simp add: mkFin_def normal_def Let_def)
qed

lemma normal_round_frac: "normal (round_frac sd s n d e)"
  by (simp add: round_frac_def Let_def normal_mkFin) (simp add: normal_def)

lemma normal_sub: "normal (Decimal_sub x y)"
proof (cases x)
  case NaN
  then show ?thesis by (simp add: normal_def)
next
  case (Inf sx)
  then show ?thesis by (cases y) (simp_all add: normal_def)
next
  case (Fin sx cx ex)
  then show ?thesis
    by (cases y) (simp_all add: Let_def normal_round_frac, simp_all add: normal_def)
qed

lemma Decimal_new_zero: "Decimal_new powf ''0'' = Inr (Fin False 0 0)"
  by (simp add: Decimal_new_def parseDecimal_def parse_exponent_def is_digit_def
      digits_val_def digit_val_def mkFin_def Let_def)

lemma Decimal_new_nonfinite:
  "Decimal_new powf ''NaN'' = Inr NaN"
  "Decimal_new powf ''Infinity'' = Inr (Inf False)"
  "Decimal_new powf ''-Infinity'' = Inr (Inf True)"
  by (simp_all add: Decimal_new_def parseOther_def parseDecimal_def is_digit_def Let_def)

lemma toString_roundtrip:
  assumes "normal x" and "x \<noteq> Fin True 0 0"
  shows "Decimal_new powf (Decimal_toString x) = Inr x"
proof (cases x)
  case NaN
  then show ?thesis
    by (simp add: Decimal_toString_def with_sign_def nonFiniteToString_def Decimal_new_nonfinite)
next
  case (Inf s)
  then show ?thesis
    by (cases s)
      (simp_all add: Decimal_toString_def with_sign_def nonFiniteToString_def Decimal_new_nonfinite)
next
  case (Fin s c e)
  show ?thesis
  proof (cases "c = 0")
    case True
    with assms Fin have "e = 0" and "\<not> s" by (simp_all add: normal_def)
    with True Fin show ?thesis
      by (simp add: Decimal_toString_def with_sign_def finiteToString_def Let_def split_beta
          Decimal_new_zero)
  next
    case False
    from assms(1) Fin have n: "normal (Fin s c e)" by simp
    note p = finiteToString_parse [OF n False]
    have q: "parseDecimal s (finiteToString c e) = Some (Fin s c e)" by (rule conjunct1 [OF p])
    from conjunct2 [OF p] obtain d t where dt: "finiteToString c e = d # t" and d: "is_digit d"
      by blast
    from d have nd: "d \<noteq> CHR ''-''" "d \<noteq> CHR ''+''" using not_digit_chars(3,4) by auto
    show ?thesis
    proof (cases s)
      case True
      with False Fin have "Decimal_toString x = CHR ''-'' # finiteToString c e"
        by (simp add: Decimal_toString_def with_sign_def)
      with q True Fin show ?thesis by (simp add: Decimal_new_def)
    next
      case F: False
      with Fin have "Decimal_toString x = finiteToString c e"
        by (simp add: Decimal_toString_def with_sign_def)
      with q F Fin dt nd show ?thesis by (simp add: Decimal_new_def)
    qed
  qed
qed

lemma earnMultiplier_roundtrip:
  "Decimal_sub l y \<noteq> Fin True 0 0 \<Longrightarrow>
     Decimal_new powf (earnMultiplier_of l y) = Inr (Decimal_sub l y)"
  unfolding earnMultiplier_of_def by (rule toString_roundtrip [OF normal_sub])

lemma val_mag: "val (Fin s c e) = (if s then - mag (Fin s c e) else mag (Fin s c e))"
  by (simp add: val.simps mag.simps)

lemma sub_difference:
  "val (Fin sx cx ex) - val (Fin sy cy ey) =
     of_int (signed_coeff sx cx ex (min ex ey) - signed_coeff sy cy ey (min ex ey)) *
       10 powi (min ex ey)"
  using val_signed_coeff [of "min ex ey" ex sx cx] val_signed_coeff [of "min ex ey" ey sy cy]
  by (simp add: algebra_simps)

lemma Decimal_sub_exact:
  assumes "Decimal_sub (Fin sx cx ex) (Fin sy cy ey) = Fin s c e" and "c \<noteq> 0"
    and "\<bar>val (Fin sx cx ex) - val (Fin sy cy ey)\<bar> = of_nat m * 10 powi k" and "m < 10 ^ 20"
  shows "val (Fin s c e) = val (Fin sx cx ex) - val (Fin sy cy ey)"
proof -
  define e0 where "e0 = min ex ey"
  define v where "v = signed_coeff sx cx ex e0 - signed_coeff sy cy ey e0"
  have diff: "val (Fin sx cx ex) - val (Fin sy cy ey) = of_int v * 10 powi e0"
    unfolding v_def e0_def by (rule sub_difference)
  have v0: "v \<noteq> 0"
  proof
    assume "v = 0"
    with assms(1) have "c = 0" by (simp add: Let_def v_def e0_def)
    with assms(2) show False by simp
  qed
  with assms(1) have r: "round_frac precision (v < 0) (nat \<bar>v\<bar>) 1 e0 = Fin s c e"
    by (simp add: Let_def v_def e0_def)
  have n: "0 < nat \<bar>v\<bar>" using v0 by simp
  have one: "0 < (1::nat)" by simp
  have absv: "(of_nat (nat \<bar>v\<bar>) :: rat) = \<bar>of_int v\<bar>" by simp
  have "\<bar>of_int v :: rat\<bar> * 10 powi e0 = of_nat m * 10 powi k"
    using assms(3) unfolding diff by (simp add: abs_mult)
  then have "\<bar>of_int v :: rat\<bar> * 10 powi e0 * 10 powi (- e0) = of_nat m * 10 powi k * 10 powi (- e0)"
    by simp
  moreover have "(10::rat) powi e0 * 10 powi (- e0) = 1"
    by (simp add: power_int_add [symmetric])
  moreover have "(10::rat) powi k * 10 powi (- e0) = 10 powi (k - e0)"
    by (simp add: power_int_add [symmetric])
  ultimately have "\<bar>of_int v :: rat\<bar> = of_nat m * 10 powi (k - e0)"
    by (simp add: mult.assoc)
  then have f: "(of_nat (nat \<bar>v\<bar>) :: rat) / of_nat 1 = of_nat m * 10 powi (k - e0)"
    by (simp add: absv)
  have mp: "m < 10 ^ precision" using assms(4) by (simp add: precision_def)
  have pp: "0 < precision" by (simp add: precision_def)
  from round_frac_exact [OF n one r assms(2) f mp pp]
  have mg: "mag (Fin s c e) = \<bar>of_int v\<bar> * 10 powi e0"
    by (simp add: absv)
  from round_frac_error [OF n one r assms(2)] have sg: "s = (v < 0)" by blast
  have "val (Fin s c e) = (if v < 0 then - mag (Fin s c e) else mag (Fin s c e))"
    by (simp add: val_mag sg)
  also have "\<dots> = of_int v * 10 powi e0"
    unfolding mg by (simp add: abs_if)
  finally show ?thesis by (simp only: diff)
qed

text \<open>
  C6. When the amounts decode, the computation returns a row whose \<open>earnMultiplier\<close> is
  \<open>lastRatio - yesterdayRatio\<close> in the library's arithmetic, converted by \<open>toString\<close>,
  when both ratios are present, and the literal \<open>0\<close>, not \<open>calculating..\<close>, when either
  is absent. The string is exact, with no rounding to a fixed number of places: read back
  by the constructor it is the difference (unless that is the negative zero). The
  difference is the exact one whenever that has at most 20 significant digits. In scenario
  C (ratios 2.0 and 1.99) \<open>earnMultiplier\<close> is \<open>0.01\<close> and \<open>dailyBasedApr\<close> is
  \<open>183.417085\<close>. A difference below \<open>10^-6\<close> is written with an exponent: the ratios
  1.0000001 and 1 give \<open>1e-7\<close>.
\<close>

theorem earnMultiplier_formula:
  assumes "calculateRatio powf (lastEntry e) = Inr lr"
    and "calculateRatio powf (weeklyEntry e) = Inr wr"
    and "calculateRatio powf (yesterdayEntry e) = Inr yr"
  shows "(\<exists>r. getPoolsStats powf a e = Inr r \<and>
            earnMultiplier r =
              (case (lr, yr) of
                 (Some l, Some y) \<Rightarrow> Decimal_toString (Decimal_sub l y)
               | _ \<Rightarrow> ''0'') \<and>
            (lr = None \<or> yr = None \<longrightarrow> earnMultiplier r = ''0'' \<and> earnMultiplier r \<noteq> calculating) \<and>
            (\<forall>l y. lr = Some l \<and> yr = Some y \<and> Decimal_sub l y \<noteq> Fin True 0 0 \<longrightarrow>
               Decimal_new powf (earnMultiplier r) = Inr (Decimal_sub l y))) \<and>
         (\<forall>sx cx ex sy cy ey s c e' m k.
            Decimal_sub (Fin sx cx ex) (Fin sy cy ey) = Fin s c e' \<and> c \<noteq> 0 \<and>
            \<bar>val (Fin sx cx ex) - val (Fin sy cy ey)\<bar> = of_nat m * 10 powi k \<and> m < 10 ^ 20 \<longrightarrow>
            val (Fin s c e') = val (Fin sx cx ex) - val (Fin sy cy ey)) \<and>
         getPoolsStats powf ''C'' scenario_C =
           Inr \<lparr> stats_address = ''C'', baseApy = ''100.000000'', avgApy = ''calculating..'',
                 dailyBasedApr = ''183.417085'', weeklyBasedApr = ''calculating..'',
                 earnMultiplier = ''0.01'' \<rparr> \<and>
         earnMultiplier_of (Fin False 10000001 (- 7)) (Fin False 1 0) = ''1e-7''"
proof -
  have c: "''0'' \<noteq> calculating" by (simp add: calculating_def)
  have row: "\<exists>r. getPoolsStats powf a e = Inr r \<and>
            earnMultiplier r =
              (case (lr, yr) of
                 (Some l, Some y) \<Rightarrow> Decimal_toString (Decimal_sub l y)
               | _ \<Rightarrow> ''0'') \<and>
            (lr = None \<or> yr = None \<longrightarrow> earnMultiplier r = ''0'' \<and> earnMultiplier r \<noteq> calculating) \<and>
            (\<forall>l y. lr = Some l \<and> yr = Some y \<and> Decimal_sub l y \<noteq> Fin True 0 0 \<longrightarrow>
               Decimal_new powf (earnMultiplier r) = Inr (Decimal_sub l y))"
    unfolding getPoolsStats_ratios [OF assms]
    using c earnMultiplier_roundtrip
    by (auto simp add: earnMultiplier_of_def split: option.splits)
  have exact: "\<forall>sx cx ex sy cy ey s c e' m k.
            Decimal_sub (Fin sx cx ex) (Fin sy cy ey) = Fin s c e' \<and> c \<noteq> 0 \<and>
            \<bar>val (Fin sx cx ex) - val (Fin sy cy ey)\<bar> = of_nat m * 10 powi k \<and> m < 10 ^ 20 \<longrightarrow>
            val (Fin s c e') = val (Fin sx cx ex) - val (Fin sy cy ey)"
    using Decimal_sub_exact by blast
  from row exact scenario_C_stats [of powf] earn_small show ?thesis by blast
qed

theorem earnMultiplier_formula_witness:
  "\<forall>powf. \<exists>r. getPoolsStats powf ''C'' scenario_C = Inr r \<and>
      earnMultiplier r = Decimal_toString (Decimal_sub (Fin False 2 0) (Fin False 199 (- 2))) \<and>
      earnMultiplier r = ''0.01'' \<and>
      Decimal_new powf (earnMultiplier r) = Inr (Fin False 1 (- 2))"
proof
  fix powf
  have n: "Decimal_sub (Fin False 2 0) (Fin False 199 (- 2)) \<noteq> Fin True 0 0"
    by (simp add: sub_2_199 del: Decimal_sub.simps)
  from earnMultiplier_formula [OF scenario_C_ratios, of powf "''C''"] n
  show "\<exists>r. getPoolsStats powf ''C'' scenario_C = Inr r \<and>
      earnMultiplier r = Decimal_toString (Decimal_sub (Fin False 2 0) (Fin False 199 (- 2))) \<and>
      earnMultiplier r = ''0.01'' \<and>
      Decimal_new powf (earnMultiplier r) = Inr (Fin False 1 (- 2))"
    by (auto simp add: sub_2_199 simp del: Decimal_sub.simps)
qed



section \<open>Fewer than two snapshots (C3)\<close>

lemma find_filter_Nil: "filter P xs = [] \<Longrightarrow> find (\<lambda>q. P q \<and> Q q) xs = None"
  by (induction xs) (auto split: if_splits)

lemma find_filter_single:
  "filter P xs = [p] \<Longrightarrow> find (\<lambda>q. P q \<and> Q q) xs = (if Q p then Some p else None)"
proof (induction xs)
  case Nil
  then show ?case by simp
next
  case (Cons x xs)
  show ?case
  proof (cases "P x")
    case True
    with Cons.prems have x: "x = p" and r: "filter P xs = []" by auto
    from r have "find (\<lambda>q. P q \<and> Q q) xs = None" by (rule find_filter_Nil)
    with True x show ?thesis by simp
  next
    case False
    with Cons show ?thesis by simp
  qed
qed

lemma entries_none:
  assumes "filter (\<lambda>q. address q = a) table = []"
  shows "getPoolsEntries tz now table a =
     \<lparr> firstEntry = None, lastEntry = None, weeklyEntry = None, yesterdayEntry = None \<rparr>"
  using assms find_filter_Nil [OF assms]
  by (simp add: getPoolsEntries_def findFirst_asc_def findFirst_desc_def findFirst_between_def)

lemma entries_single:
  assumes "filter (\<lambda>q. address q = a) table = [p]"
  shows "getPoolsEntries tz now table a =
     \<lparr> firstEntry = Some p, lastEntry = Some p,
       weeklyEntry = (if in_window p (weeklyDateMin tz now) (weeklyDateMax tz now)
                      then Some p else None),
       yesterdayEntry = (if in_window p (yesterdayDateMin tz now) (setUTCHours0 now)
                         then Some p else None) \<rparr>"
  using assms find_filter_single [OF assms]
  by (simp add: getPoolsEntries_def findFirst_asc_def findFirst_desc_def findFirst_between_def
      in_window_def)

lemma stats_none:
  "getPoolsStats powf a \<lparr> firstEntry = None, lastEntry = None, weeklyEntry = None, yesterdayEntry = None \<rparr> =
     Inr \<lparr> stats_address = a, baseApy = calculating, avgApy = calculating,
           dailyBasedApr = calculating, weeklyBasedApr = calculating, earnMultiplier = ''0'' \<rparr>"
  by (simp add: getPoolsStats_def calculateRatio_None)

lemma ceil_days_0: "ceil_days 0 = Days 0"
  by (simp add: ceil_days_def msPerDay_def)

lemma one_snapshot_filter:
  "filter (\<lambda>q. address q = ''B'') one_snapshot_table =
     [snapshot ''B'' 1677000000000 ''1000000'' ''1100000'']"
  by (simp add: one_snapshot_table_def snapshot_def)

lemma Day_now: "Day 1677672000000 = 19417" "Day 1677628800000 = 19417" "Day 1677610800000 = 19416"
  by (simp_all add: Day_def msPerDay_def)

lemma DateFromDay_eval: "DateFromDay 19417 = 1" "DateFromDay 19416 = 28"
  by (simp_all add: DateFromDay_def Let_def)

lemma nowDate_eval: "setUTCHours0 1677672000000 = 1677628800000"
  by (simp add: setUTCHours0_def Day_now msPerDay_def)

lemma getDate_utc: "getDate 0 1677628800000 = 1"
  by (simp add: getDate_def DateFromTime_def Day_now DateFromDay_eval)

lemma setUTCDate_eval:
  "setUTCDate 1677628800000 n = (19416 + n) * 86400000"
  by (simp add: setUTCDate_def DateFromTime_def TimeWithinDay_def Day_now DateFromDay_eval
      msPerDay_def)

lemma date_eval_utc:
  "setUTCHours0 1677672000000 = 1677628800000"
  "weeklyDateMin 0 1677672000000 = 1677024000000"
  "weeklyDateMax 0 1677672000000 = 1677110400000"
  "yesterdayDateMin 0 1677672000000 = 1677542400000"
  by (simp_all add: weeklyDateMin_def weeklyDateMax_def yesterdayDateMin_def nowDate_eval
      getDate_utc setUTCDate_eval AVG_DAYS_def)

lemma one_snapshot_entries:
  "getPoolsEntries 0 1677672000000 one_snapshot_table ''B'' =
     single_entries (snapshot ''B'' 1677000000000 ''1000000'' ''1100000'')"
  unfolding entries_single [OF one_snapshot_filter] date_eval_utc
  by (simp add: in_window_def single_entries_def snapshot_def)

lemma one_snapshot_stats:
  "getStats powf 0 (\<lambda>i. 1677672000000) one_snapshot_table =
     Inr [\<lparr> stats_address = ''B'', baseApy = ''Infinity'', avgApy = ''calculating..'',
            dailyBasedApr = ''calculating..'', weeklyBasedApr = ''calculating..'',
            earnMultiplier = ''0'' \<rparr>]"
proof -
  have a: "map address (findMany_distinct one_snapshot_table) = [''B'']"
    by (simp add: one_snapshot_table_def snapshot_def)
  show ?thesis
    unfolding getStats_def a
    by (simp add: one_snapshot_entries single_stats [OF ratio_11] baseApy_of_Days_0 near_one_11
        calculating_def)
qed

text \<open>
  C3, as amended. For an address with fewer than two snapshots whose amounts decode, the
  computation returns a row. With no snapshot all five fields are placeholders. With one
  snapshot \<open>baseApy\<close> is not the placeholder but \<open>Infinity\<close>, \<open>-100.000000\<close> or \<open>NaN\<close>
  (no day has elapsed); \<open>avgApy\<close> and \<open>weeklyBasedApr\<close> are \<open>calculating..\<close> when the
  snapshot lies outside the weekly window, and \<open>dailyBasedApr\<close> is \<open>calculating..\<close> and
  \<open>earnMultiplier\<close> is \<open>0\<close> when it lies outside yesterday's window.
\<close>

theorem few_snapshots_stats:
  assumes "filter (\<lambda>q. address q = a) table = ps" and "length ps < 2"
    and "\<forall>p \<in> set ps. \<exists>q. calculateRatio powf (Some p) = Inr q"
  shows "\<exists>r. getPoolsStats powf a (getPoolsEntries tz now table a) = Inr r \<and>
           (ps = [] \<longrightarrow>
              baseApy r = calculating \<and> avgApy r = calculating \<and> dailyBasedApr r = calculating \<and>
              weeklyBasedApr r = calculating \<and> earnMultiplier r = ''0'') \<and>
           (\<forall>p. ps = [p] \<longrightarrow>
              baseApy r \<in> {''Infinity'', ''-100.000000'', ''NaN''} \<and>
              (\<not> in_window p (weeklyDateMin tz now) (weeklyDateMax tz now) \<longrightarrow>
                 avgApy r = calculating \<and> weeklyBasedApr r = calculating) \<and>
              (\<not> in_window p (yesterdayDateMin tz now) (setUTCHours0 now) \<longrightarrow>
                 dailyBasedApr r = calculating \<and> earnMultiplier r = ''0''))"
proof (cases ps)
  case Nil
  with assms(1) have "filter (\<lambda>q. address q = a) table = []" by simp
  then show ?thesis
    using Nil by (simp add: entries_none stats_none)
next
  case (Cons p rest)
  with assms(2) have ps: "ps = [p]" by (cases rest) auto
  with assms(1) have f: "filter (\<lambda>q. address q = a) table = [p]" by simp
  from assms(3) ps obtain q where "calculateRatio powf (Some p) = Inr q" by auto
  then obtain x where q: "calculateRatio powf (Some p) = Inr (Some x)"
    by (auto elim: calculateRatio_Some_InrD)
  let ?w = "in_window p (weeklyDateMin tz now) (weeklyDateMax tz now)"
  let ?y = "in_window p (yesterdayDateMin tz now) (setUTCHours0 now)"
  let ?e = "getPoolsEntries tz now table a"
  have l: "calculateRatio powf (lastEntry ?e) = Inr (Some x)"
    by (simp add: entries_single [OF f] q)
  have w: "calculateRatio powf (weeklyEntry ?e) = Inr (if ?w then Some x else None)"
    by (simp add: entries_single [OF f] q calculateRatio_None)
  have y: "calculateRatio powf (yesterdayEntry ?e) = Inr (if ?y then Some x else None)"
    by (simp add: entries_single [OF f] q calculateRatio_None)
  have d: "daysElapsedSinceIndexed ?e = Days 0"
    by (simp add: entries_single [OF f] daysElapsedSinceIndexed_def ceil_days_0)
  have b: "baseApy_of powf x (Days 0) \<in> {''Infinity'', ''-100.000000'', ''NaN''}"
    by (rule baseApy_of_zero_days) simp
  show ?thesis
    unfolding getPoolsStats_ratios [OF l w y] d
    using b ps by simp
qed

text \<open>
  The claim as stated fails: the table holds one snapshot of address \<open>B\<close>, and the row of
  \<open>B\<close> has \<open>baseApy = Infinity\<close>.
\<close>

theorem one_snapshot_row_not_placeholder:
  "length (filter (\<lambda>q. address q = ''B'') one_snapshot_table) = 1 \<and>
   (\<forall>powf. getStats powf 0 (\<lambda>i. 1677672000000) one_snapshot_table =
      Inr [\<lparr> stats_address = ''B'', baseApy = ''Infinity'', avgApy = ''calculating..'',
             dailyBasedApr = ''calculating..'', weeklyBasedApr = ''calculating..'',
             earnMultiplier = ''0'' \<rparr>])"
  by (simp add: one_snapshot_filter one_snapshot_stats)

theorem few_snapshots_stats_witness:
  "\<forall>powf. \<exists>r. getPoolsStats powf ''B'' (getPoolsEntries 0 1677672000000 one_snapshot_table ''B'') = Inr r \<and>
      baseApy r \<in> {''Infinity'', ''-100.000000'', ''NaN''} \<and>
      avgApy r = calculating \<and> weeklyBasedApr r = calculating \<and>
      dailyBasedApr r = calculating \<and> earnMultiplier r = ''0''"
proof
  fix powf
  let ?p = "snapshot ''B'' 1677000000000 ''1000000'' ''1100000''"
  have n: "length [?p] < 2" by simp
  have q: "\<forall>p \<in> set [?p]. \<exists>q. calculateRatio powf (Some p) = Inr q"
    using ratio_11 by simp
  have w: "\<not> in_window ?p (weeklyDateMin 0 1677672000000) (weeklyDateMax 0 1677672000000)"
    unfolding date_eval_utc by (simp add: in_window_def snapshot_def)
  have y: "\<not> in_window ?p (yesterdayDateMin 0 1677672000000) (setUTCHours0 1677672000000)"
    unfolding date_eval_utc by (simp add: in_window_def snapshot_def)
  from few_snapshots_stats [OF one_snapshot_filter n q, where tz = 0 and now = 1677672000000] w y
  show "\<exists>r. getPoolsStats powf ''B'' (getPoolsEntries 0 1677672000000 one_snapshot_table ''B'') = Inr r \<and>
      baseApy r \<in> {''Infinity'', ''-100.000000'', ''NaN''} \<and>
      avgApy r = calculating \<and> weeklyBasedApr r = calculating \<and>
      dailyBasedApr r = calculating \<and> earnMultiplier r = ''0''"
    by blast
qed

section \<open>The windows and the local time zone (C7)\<close>

text \<open>
  On a host whose local time is UTC or ahead of it by less than a day, the local day of
  the month at UTC midnight is the UTC day, and the windows are those of the
  specification.
\<close>

lemma Day_setUTCHours0: "Day (setUTCHours0 t) = Day t"
  by (simp add: Day_def setUTCHours0_def msPerDay_def)

lemma TimeWithinDay_setUTCHours0: "TimeWithinDay (setUTCHours0 t) = 0"
  by (simp add: TimeWithinDay_def setUTCHours0_def)

lemma Day_local:
  assumes "0 \<le> tz" and "tz < msPerDay"
  shows "Day (setUTCHours0 t + tz) = Day t"
proof -
  have "(Day t * msPerDay + tz) div msPerDay = Day t + tz div msPerDay"
    by (simp add: msPerDay_def)
  also have "tz div msPerDay = 0"
    using assms by simp
  finally show ?thesis
    by (simp add: setUTCHours0_def Day_def)
qed

lemma setUTCDate_getDate:
  assumes "0 \<le> tz" and "tz < msPerDay"
  shows "setUTCDate (setUTCHours0 t) (getDate tz (setUTCHours0 t) - k) = setUTCHours0 t - k * msPerDay"
proof -
  have "setUTCDate (setUTCHours0 t) (getDate tz (setUTCHours0 t) - k) =
        (Day t - DateFromDay (Day t) + 1 + (DateFromDay (Day t) - k - 1)) * msPerDay + 0"
    by (simp only: setUTCDate_def getDate_def DateFromTime_def Day_setUTCHours0
        TimeWithinDay_setUTCHours0 Day_local [OF assms])
  also have "\<dots> = Day t * msPerDay - k * msPerDay"
    by (simp add: algebra_simps)
  finally show ?thesis by (simp only: setUTCHours0_def)
qed

lemma windows_east_of_UTC:
  assumes "0 \<le> tz" and "tz < msPerDay"
  shows "weeklyDateMin tz now = setUTCHours0 now - 7 * msPerDay"
    and "weeklyDateMax tz now = setUTCHours0 now - 6 * msPerDay"
    and "yesterdayDateMin tz now = setUTCHours0 now - 1 * msPerDay"
proof -
  have a: "getDate tz (setUTCHours0 now) - AVG_DAYS + 1 = getDate tz (setUTCHours0 now) - 6"
    by (simp add: AVG_DAYS_def)
  show "weeklyDateMin tz now = setUTCHours0 now - 7 * msPerDay"
    unfolding weeklyDateMin_def Let_def AVG_DAYS_def by (rule setUTCDate_getDate [OF assms])
  show "weeklyDateMax tz now = setUTCHours0 now - 6 * msPerDay"
    unfolding weeklyDateMax_def Let_def a by (rule setUTCDate_getDate [OF assms])
  show "yesterdayDateMin tz now = setUTCHours0 now - 1 * msPerDay"
    unfolding yesterdayDateMin_def Let_def by (rule setUTCDate_getDate [OF assms])
qed

lemma getDate_west: "getDate (- 18000000) 1677628800000 = 28"
  by (simp add: getDate_def DateFromTime_def Day_now DateFromDay_eval)

text \<open>
  C7. On a host five hours behind UTC, on 1 March 2023 at 12:00 UTC: \<open>getDate\<close> of UTC
  midnight is 28 (the local date is 28 February), and \<open>setUTCDate\<close> sets day \<open>28 - 7\<close>,
  \<open>28 - 6\<close> and \<open>28 - 1\<close> of March. The weekly window is 21 to 22 March and yesterday's
  starts on 27 March, after its end; the specification's windows start on 22 February,
  23 February and 28 February.
\<close>

theorem windows_west_of_UTC:
  "setUTCHours0 1677672000000 = 1677628800000 \<and>
   weeklyDateMin (- 18000000) 1677672000000 = 1679356800000 \<and>
   weeklyDateMax (- 18000000) 1677672000000 = 1679443200000 \<and>
   yesterdayDateMin (- 18000000) 1677672000000 = 1679875200000 \<and>
   setUTCHours0 1677672000000 - 7 * msPerDay = 1677024000000 \<and>
   setUTCHours0 1677672000000 - 6 * msPerDay = 1677110400000 \<and>
   setUTCHours0 1677672000000 - 1 * msPerDay = 1677542400000"
  by (simp add: weeklyDateMin_def weeklyDateMax_def yesterdayDateMin_def nowDate_eval
      getDate_west setUTCDate_eval AVG_DAYS_def msPerDay_def)

section \<open>One row for each enumerated address (C8)\<close>

lemma getPoolsStats_address: "getPoolsStats powf a e = Inr row \<Longrightarrow> stats_address row = a"
  unfolding getPoolsStats_def by (auto split: sum.splits)

lemma stats_loop_addresses:
  "stats_loop powf tz clock table i as = Inr rows \<Longrightarrow> map stats_address rows = as"
proof (induction as arbitrary: i rows)
  case Nil
  then show ?case by simp
next
  case (Cons a as)
  from Cons.prems obtain row rest
    where r: "getPoolsStats powf a (getPoolsEntries tz (clock i) table a) = Inr row"
      and l: "stats_loop powf tz clock table (Suc i) as = Inr rest"
      and rows: "rows = row # rest"
    by (auto split: sum.splits)
  from l have "map stats_address rest = as" by (rule Cons.IH)
  with getPoolsStats_address [OF r] rows show ?case by simp
qed

lemma findMany_distinct_subset: "set (findMany_distinct ps) \<subseteq> set ps"
  by (induction ps rule: findMany_distinct.induct) auto

lemma findMany_distinct_addresses:
  "address ` set (findMany_distinct ps) = address ` set ps"
proof (induction ps rule: findMany_distinct.induct)
  case 1
  then show ?case by simp
next
  case (2 p ps)
  have "address ` set ps \<subseteq> insert (address p) (address ` set (filter (\<lambda>q. address q \<noteq> address p) ps))"
    by auto
  with 2 show ?case by auto
qed

lemma findMany_distinct_distinct: "distinct (map address (findMany_distinct ps))"
proof (induction ps rule: findMany_distinct.induct)
  case 1
  then show ?case by simp
next
  case (2 p ps)
  have "address ` set (findMany_distinct (filter (\<lambda>q. address q \<noteq> address p) ps))
        \<subseteq> address ` set (filter (\<lambda>q. address q \<noteq> address p) ps)"
    using findMany_distinct_subset by blast
  then have "address p \<notin> address ` set (findMany_distinct (filter (\<lambda>q. address q \<noteq> address p) ps))"
    by auto
  with 2 show ?case by simp
qed

lemma row_B:
  "getPoolsStats powf ''B'' (getPoolsEntries 0 1677672000000 one_snapshot_table ''B'') =
     Inr \<lparr> stats_address = ''B'', baseApy = ''Infinity'', avgApy = ''calculating..'',
           dailyBasedApr = ''calculating..'', weeklyBasedApr = ''calculating..'',
           earnMultiplier = ''0'' \<rparr>"
  by (simp add: one_snapshot_entries single_stats [OF ratio_11] baseApy_of_Days_0 near_one_11
      calculating_def)

lemma duplicate_entries:
  "getPoolsEntries 0 1677672000000 duplicate_table ''B'' =
     single_entries (snapshot ''B'' 1677000000000 ''1000000'' ''1100000'')"
  unfolding getPoolsEntries_def date_eval_utc
  by (simp add: duplicate_table_def findFirst_asc_def findFirst_desc_def findFirst_between_def
      single_entries_def snapshot_def)

lemma duplicate_stats:
  "getStats powf 0 (\<lambda>i. 1677672000000) duplicate_table =
     Inr [\<lparr> stats_address = ''B'', baseApy = ''Infinity'', avgApy = ''calculating..'',
            dailyBasedApr = ''calculating..'', weeklyBasedApr = ''calculating..'',
            earnMultiplier = ''0'' \<rparr>]"
proof -
  have a: "map address (findMany_distinct duplicate_table) = [''B'']"
    by (simp add: duplicate_table_def snapshot_def)
  show ?thesis
    unfolding getStats_def a
    by (simp add: duplicate_entries single_stats [OF ratio_11] baseApy_of_Days_0 near_one_11
        calculating_def)
qed

text \<open>
  C8, as amended. The loop returns one row for each enumerated address, in the order of
  the enumeration, and removes nothing: the addresses of the rows are the enumerated
  list. The distinct-address query returns each address of the table once, so the rows of
  \<open>getStats\<close> have distinct addresses, those of the table.
\<close>

theorem rows_follow_enumeration:
  "(stats_loop powf tz clock table i as = Inr rows \<longrightarrow> map stats_address rows = as) \<and>
   (getStats powf tz clock table = Inr rows \<longrightarrow>
      distinct (map stats_address rows) \<and> set (map stats_address rows) = address ` set table)"
proof (intro conjI impI)
  assume "stats_loop powf tz clock table i as = Inr rows"
  then show "map stats_address rows = as" by (rule stats_loop_addresses)
next
  assume "getStats powf tz clock table = Inr rows"
  then have m: "map stats_address rows = map address (findMany_distinct table)"
    unfolding getStats_def by (rule stats_loop_addresses)
  show "distinct (map stats_address rows)"
    unfolding m by (rule findMany_distinct_distinct)
  show "set (map stats_address rows) = address ` set table"
    unfolding m by (simp add: findMany_distinct_addresses)
qed

text \<open>
  The claim as stated fails: an enumeration that lists address \<open>B\<close> twice gives two equal
  rows.
\<close>

theorem duplicated_address_duplicates_row:
  "\<forall>powf. stats_loop powf 0 (\<lambda>i. 1677672000000) one_snapshot_table 0 [''B'', ''B''] =
     Inr [\<lparr> stats_address = ''B'', baseApy = ''Infinity'', avgApy = ''calculating..'',
            dailyBasedApr = ''calculating..'', weeklyBasedApr = ''calculating..'',
            earnMultiplier = ''0'' \<rparr>,
          \<lparr> stats_address = ''B'', baseApy = ''Infinity'', avgApy = ''calculating..'',
            dailyBasedApr = ''calculating..'', weeklyBasedApr = ''calculating..'',
            earnMultiplier = ''0'' \<rparr>]"
  by (simp add: row_B)

theorem rows_follow_enumeration_witness:
  "\<forall>powf. \<exists>rows. getStats powf 0 (\<lambda>i. 1677672000000) duplicate_table = Inr rows \<and>
      length rows = 1 \<and> distinct (map stats_address rows) \<and>
      set (map stats_address rows) = address ` set duplicate_table"
proof
  fix powf
  from rows_follow_enumeration [of powf 0 "\<lambda>i. 1677672000000" duplicate_table 0 "[]"] duplicate_stats [of powf]
  show "\<exists>rows. getStats powf 0 (\<lambda>i. 1677672000000) duplicate_table = Inr rows \<and>
      length rows = 1 \<and> distinct (map stats_address rows) \<and>
      set (map stats_address rows) = address ` set duplicate_table"
    by (auto simp add: duplicate_table_def snapshot_def)
qed

section \<open>The output as a function of the store and the clock (C9)\<close>

text \<open>
  With the host's time zone fixed, the rows and the handler's response depend on the
  clock readings only through their UTC day; and every time zone from UTC up to a day
  ahead of it gives the same rows. The order in which the database returns rows is part
  of the table.
\<close>

lemma getPoolsEntries_same_day:
  "setUTCHours0 n1 = setUTCHours0 n2 \<Longrightarrow> getPoolsEntries tz n1 table a = getPoolsEntries tz n2 table a"
  by (simp add: getPoolsEntries_def weeklyDateMin_def weeklyDateMax_def yesterdayDateMin_def)

lemma stats_loop_same_day:
  assumes "\<forall>j. setUTCHours0 (clock1 j) = setUTCHours0 (clock2 j)"
  shows "stats_loop powf tz clock1 table i as = stats_loop powf tz clock2 table i as"
proof (induction as arbitrary: i)
  case Nil
  show ?case by simp
next
  case (Cons a as)
  from assms have d: "setUTCHours0 (clock1 i) = setUTCHours0 (clock2 i)"
    by simp
  have e: "getPoolsEntries tz (clock1 i) table a = getPoolsEntries tz (clock2 i) table a"
    using d by (rule getPoolsEntries_same_day)
  show ?case
    by (simp only: stats_loop.simps e Cons.IH [of "Suc i"])
qed

lemma getStats_same_day:
  assumes "\<forall>j. setUTCHours0 (clock1 j) = setUTCHours0 (clock2 j)"
  shows "getStats powf tz clock1 table = getStats powf tz clock2 table"
    and "default_handler powf tz clock1 table = default_handler powf tz clock2 table"
proof -
  have loop: "stats_loop powf tz clock1 table 0 (map address (findMany_distinct table)) =
      stats_loop powf tz clock2 table 0 (map address (findMany_distinct table))"
    by (rule stats_loop_same_day [OF assms])
  then show rows: "getStats powf tz clock1 table = getStats powf tz clock2 table"
    by (simp only: getStats_def)
  then show "default_handler powf tz clock1 table = default_handler powf tz clock2 table"
    by (simp only: default_handler_def)
qed

lemma getPoolsEntries_east_of_UTC:
  assumes "0 \<le> tz1" and "tz1 < msPerDay" and "0 \<le> tz2" and "tz2 < msPerDay"
  shows "getPoolsEntries tz1 now table a = getPoolsEntries tz2 now table a"
  by (simp only: getPoolsEntries_def windows_east_of_UTC [OF assms(1,2)]
      windows_east_of_UTC [OF assms(3,4)])

lemma stats_loop_east_of_UTC:
  assumes "0 \<le> tz1" and "tz1 < msPerDay" and "0 \<le> tz2" and "tz2 < msPerDay"
  shows "stats_loop powf tz1 clock table i as = stats_loop powf tz2 clock table i as"
proof (induction as arbitrary: i)
  case Nil
  show ?case by simp
next
  case (Cons a as)
  have e: "getPoolsEntries tz1 (clock i) table a = getPoolsEntries tz2 (clock i) table a"
    by (rule getPoolsEntries_east_of_UTC [OF assms])
  show ?case
    by (simp only: stats_loop.simps e Cons.IH [of "Suc i"])
qed

lemma getStats_east_of_UTC:
  assumes "0 \<le> tz1" and "tz1 < msPerDay" and "0 \<le> tz2" and "tz2 < msPerDay"
  shows "getStats powf tz1 clock table = getStats powf tz2 clock table"
  unfolding getStats_def by (rule stats_loop_east_of_UTC [OF assms])

text \<open>The row of an address whose only snapshot, of ratio 1.1, lies in yesterday's window.\<close>

lemma div_11_11: "Decimal_div (Fin False 11 (- 1)) (Fin False 11 (- 1)) = Fin False 1 0"
  by (simp add: arith_eval)

lemma daily_11_11:
  "Decimal_mul (Decimal_mul (Decimal_sub (Fin False 1 0) dec_1) dec_365) dec_100 = Fin False 0 0"
  by (simp add: dec_1_def dec_365_def dec_100_def arith_eval)

lemma fixed_0: "toFixed6 (Fin False 0 0) = ''0.000000''"
  apply (simp add: toFixed6_def round_dp6_def with_sign_def Let_def)
  apply (simp add: str_eval)
  done

lemma dailyApr_11_11: "dailyApr_of (Fin False 11 (- 1)) (Fin False 11 (- 1)) = ''0.000000''"
  unfolding dailyApr_of_def by (simp only: div_11_11 daily_11_11 fixed_0)

lemma earn_11_11: "earnMultiplier_of (Fin False 11 (- 1)) (Fin False 11 (- 1)) = ''0''"
  by (rule earnMultiplier_equal) simp_all

lemma yesterday_table_filter:
  "filter (\<lambda>q. address q = ''B'') yesterday_table =
     [snapshot ''B'' 1677600000000 ''1000000'' ''1100000'']"
  by (simp add: yesterday_table_def snapshot_def)

lemma date_eval_west:
  "weeklyDateMin (- 18000000) 1677672000000 = 1679356800000"
  "weeklyDateMax (- 18000000) 1677672000000 = 1679443200000"
  "yesterdayDateMin (- 18000000) 1677672000000 = 1679875200000"
  by (simp_all add: weeklyDateMin_def weeklyDateMax_def yesterdayDateMin_def nowDate_eval
      getDate_west setUTCDate_eval AVG_DAYS_def)

lemma yesterday_entries_utc:
  "getPoolsEntries 0 1677672000000 yesterday_table ''B'' =
     \<lparr> firstEntry = Some (snapshot ''B'' 1677600000000 ''1000000'' ''1100000''),
       lastEntry = Some (snapshot ''B'' 1677600000000 ''1000000'' ''1100000''),
       weeklyEntry = None,
       yesterdayEntry = Some (snapshot ''B'' 1677600000000 ''1000000'' ''1100000'') \<rparr>"
  unfolding entries_single [OF yesterday_table_filter] date_eval_utc
  by (simp add: in_window_def snapshot_def)

lemma yesterday_entries_west:
  "getPoolsEntries (- 18000000) 1677672000000 yesterday_table ''B'' =
     single_entries (snapshot ''B'' 1677600000000 ''1000000'' ''1100000'')"
  unfolding entries_single [OF yesterday_table_filter] date_eval_west nowDate_eval
  by (simp add: in_window_def single_entries_def snapshot_def)

lemma yesterday_row_utc:
  "getPoolsStats powf ''B'' (getPoolsEntries 0 1677672000000 yesterday_table ''B'') =
     Inr \<lparr> stats_address = ''B'', baseApy = ''Infinity'', avgApy = ''calculating..'',
           dailyBasedApr = ''0.000000'', weeklyBasedApr = ''calculating..'',
           earnMultiplier = ''0'' \<rparr>"
proof -
  let ?p = "snapshot ''B'' 1677600000000 ''1000000'' ''1100000''"
  let ?e = "\<lparr> firstEntry = Some ?p, lastEntry = Some ?p, weeklyEntry = None,
              yesterdayEntry = Some ?p \<rparr>"
  have l: "calculateRatio powf (lastEntry ?e) = Inr (Some (Fin False 11 (- 1)))"
    by (simp add: ratio_11)
  have w: "calculateRatio powf (weeklyEntry ?e) = Inr None"
    by (simp add: calculateRatio_None)
  have y: "calculateRatio powf (yesterdayEntry ?e) = Inr (Some (Fin False 11 (- 1)))"
    by (simp add: ratio_11)
  have d: "daysElapsedSinceIndexed ?e = Days 0"
    by (simp add: daysElapsedSinceIndexed_def ceil_days_0)
  show ?thesis
    unfolding yesterday_entries_utc getPoolsStats_ratios [OF l w y] d baseApy_of_Days_0
    by (simp add: near_one_11 dailyApr_11_11 earn_11_11 calculating_def)
qed

lemma yesterday_row_west:
  "getPoolsStats powf ''B'' (getPoolsEntries (- 18000000) 1677672000000 yesterday_table ''B'') =
     Inr \<lparr> stats_address = ''B'', baseApy = ''Infinity'', avgApy = ''calculating..'',
           dailyBasedApr = ''calculating..'', weeklyBasedApr = ''calculating..'',
           earnMultiplier = ''0'' \<rparr>"
  by (simp add: yesterday_entries_west single_stats [OF ratio_11] baseApy_of_Days_0 near_one_11
      calculating_def)

text \<open>
  C9. The table holds one snapshot of address \<open>B\<close>, taken on 28 February 2023 at 16:00
  UTC, and every clock reading is 1 March 2023, 12:00 UTC. On a host at UTC the snapshot
  lies in yesterday's window and \<open>dailyBasedApr\<close> is \<open>0.000000\<close>. On a host five hours
  behind UTC, with the same table and the same readings, yesterday's window starts on 27
  March (the local day of the month, 28, is set as a UTC day), it is empty, and
  \<open>dailyBasedApr\<close> is \<open>calculating..\<close>: the output is not a function of the store and
  the clock alone.
\<close>

theorem host_time_zone_changes_rows:
  "\<forall>powf.
     getStats powf 0 (\<lambda>i. 1677672000000) yesterday_table =
       Inr [\<lparr> stats_address = ''B'', baseApy = ''Infinity'', avgApy = ''calculating..'',
              dailyBasedApr = ''0.000000'', weeklyBasedApr = ''calculating..'',
              earnMultiplier = ''0'' \<rparr>] \<and>
     getStats powf (- 18000000) (\<lambda>i. 1677672000000) yesterday_table =
       Inr [\<lparr> stats_address = ''B'', baseApy = ''Infinity'', avgApy = ''calculating..'',
              dailyBasedApr = ''calculating..'', weeklyBasedApr = ''calculating..'',
              earnMultiplier = ''0'' \<rparr>] \<and>
     getStats powf 0 (\<lambda>i. 1677672000000) yesterday_table \<noteq>
       getStats powf (- 18000000) (\<lambda>i. 1677672000000) yesterday_table"
proof
  fix powf
  have a: "map address (findMany_distinct yesterday_table) = [''B'']"
    by (simp add: yesterday_table_def snapshot_def)
  have u: "getStats powf 0 (\<lambda>i. 1677672000000) yesterday_table =
       Inr [\<lparr> stats_address = ''B'', baseApy = ''Infinity'', avgApy = ''calculating..'',
              dailyBasedApr = ''0.000000'', weeklyBasedApr = ''calculating..'',
              earnMultiplier = ''0'' \<rparr>]"
    unfolding getStats_def a by (simp add: yesterday_row_utc)
  have w: "getStats powf (- 18000000) (\<lambda>i. 1677672000000) yesterday_table =
       Inr [\<lparr> stats_address = ''B'', baseApy = ''Infinity'', avgApy = ''calculating..'',
              dailyBasedApr = ''calculating..'', weeklyBasedApr = ''calculating..'',
              earnMultiplier = ''0'' \<rparr>]"
    unfolding getStats_def a by (simp add: yesterday_row_west)
  show "getStats powf 0 (\<lambda>i. 1677672000000) yesterday_table =
       Inr [\<lparr> stats_address = ''B'', baseApy = ''Infinity'', avgApy = ''calculating..'',
              dailyBasedApr = ''0.000000'', weeklyBasedApr = ''calculating..'',
              earnMultiplier = ''0'' \<rparr>] \<and>
     getStats powf (- 18000000) (\<lambda>i. 1677672000000) yesterday_table =
       Inr [\<lparr> stats_address = ''B'', baseApy = ''Infinity'', avgApy = ''calculating..'',
              dailyBasedApr = ''calculating..'', weeklyBasedApr = ''calculating..'',
              earnMultiplier = ''0'' \<rparr>] \<and>
     getStats powf 0 (\<lambda>i. 1677672000000) yesterday_table \<noteq>
       getStats powf (- 18000000) (\<lambda>i. 1677672000000) yesterday_table"
    unfolding u w by simp
qed

end
